theory Spec2Isabelle
  imports Complex_Main "HOL-Library.AList" "HOL-Library.Multiset"
begin

section \<open>Python values\<close>

text \<open>
  A Python \<^verbatim>\<open>str\<close> is a sequence of Unicode code points; it is modelled as the list of
  those code points, so that indexing and comparison count what Python counts.
  \<open>str\<close> turns an ASCII literal into such a list. A Python \<^verbatim>\<open>float\<close> is modelled as
  the real number it denotes, a Python \<^verbatim>\<open>int\<close> as an integer,
  and a \<^verbatim>\<open>dict\<close> as an association list in insertion order, read with \<open>map_of\<close> and
  written with \<open>AList.update\<close> (an existing key keeps its position, a new key is appended).
  The arithmetic of the bandit's value estimate is rounded to doubles as Python rounds
  it; the other quotients and sums (the selection rate, the scores of the metrics and
  their aggregate) are computed on the reals.
\<close>

type_synonym pystr = "nat list"

definition str :: "string \<Rightarrow> pystr" where
  "str s = map of_char s"

text \<open>The okina letter, U+02BB.\<close>

definition okina :: nat where
  "okina = 0x2BB"

type_synonym ('k, 'v) dict = "('k \<times> 'v) list"

text \<open>
  \<^verbatim>\<open>{key(x): val(x) for x in xs}\<close>: the items are inserted from left to right, a
  repeated key overwriting the value stored before.
\<close>

definition dict_comp :: "('a \<Rightarrow> 'k) \<Rightarrow> ('a \<Rightarrow> 'v) \<Rightarrow> 'a list \<Rightarrow> ('k, 'v) dict" where
  "dict_comp key val xs = fold (\<lambda>x d. AList.update (key x) (val x) d) xs []"

datatype error =
    ValueError pystr
  | KeyError pystr
  | IndexError
  | ZeroDivisionError
  | TypeError
  | FileNotFoundError pystr
  | HTTPException nat pystr

text \<open>
  A call on an object either returns or raises, and in both cases leaves the object in
  some state: the outcome is paired with the state after the call.
\<close>

type_synonym ('a, 's) call_result = "(error + 'a) \<times> 's"

section \<open>Floating-point arithmetic\<close>

text \<open>
  CPython's \<^verbatim>\<open>float\<close> is the IEEE 754 binary64 format. A finite double is a number
  \<open>m * 2 powi e\<close> with an integer significand \<open>\<bar>m\<bar> < 2 ^ 53\<close> and an exponent
  \<open>- 1074 \<le> e \<le> 971\<close>, and the operators \<^verbatim>\<open>+\<close>, \<^verbatim>\<open>-\<close> and \<^verbatim>\<open>/\<close> return the exact
  result rounded to the nearest double, a tie going to the even significand.

  \<open>ulp_exponent x\<close> is the exponent of the unit in the last place at \<open>x\<close>: the least
  exponent of the format under which the significand of \<open>x\<close> stays below \<open>2 ^ 53\<close>
  (\<open>- 1074\<close> for the subnormal numbers). \<open>round_to_double\<close> rounds the significand
  at that exponent.

  Python's infinities and NaN are not real numbers. Where the exact result is too
  large for a double (from \<open>2 ^ 1024 - 2 ^ 970\<close> on) an operation yields an infinity
  in Python, and the conversion of an \<^verbatim>\<open>int\<close> raises \<^verbatim>\<open>OverflowError\<close>;
  \<open>round_to_double\<close> has no value for that case and returns \<open>2 ^ 1024\<close>, or its
  argument where \<open>ulp_exponent\<close> is \<open>None\<close>. The statements about rounded results
  bound the operands, so that every result is a double.
\<close>

definition round_half_even :: "real \<Rightarrow> int" where
  "round_half_even x =
     (let f = \<lfloor>x\<rfloor>; d = x - of_int f
      in if d < 1 / 2 then f else if 1 / 2 < d then f + 1 else if even f then f else f + 1)"

definition ulp_exponent :: "real \<Rightarrow> int option" where
  "ulp_exponent x = find (\<lambda>e. \<bar>x\<bar> < 2 powi (e + 53)) [-1074..971]"

definition round_to_double :: "real \<Rightarrow> real" where
  "round_to_double x =
     (case ulp_exponent x of
        Some e \<Rightarrow> of_int (round_half_even (x / 2 powi e)) * 2 powi e
      | None \<Rightarrow> x)"

text \<open>
  \<^verbatim>\<open>x + y\<close>, \<^verbatim>\<open>x - y\<close> and \<^verbatim>\<open>x / y\<close> on floats (the divisor is not zero where
  \<open>float_div\<close> is used), and the conversion of an \<^verbatim>\<open>int\<close> operand to a float.
\<close>

definition float_add :: "real \<Rightarrow> real \<Rightarrow> real" where
  "float_add x y = round_to_double (x + y)"

definition float_sub :: "real \<Rightarrow> real \<Rightarrow> real" where
  "float_sub x y = round_to_double (x - y)"

definition float_div :: "real \<Rightarrow> real \<Rightarrow> real" where
  "float_div x y = round_to_double (x / y)"

definition float_of_int :: "int \<Rightarrow> real" where
  "float_of_int n = round_to_double (of_int n)"

section \<open>JSON documents\<close>

text \<open>
  The document that \<^verbatim>\<open>json.dump\<close> writes and \<^verbatim>\<open>json.load\<close> reads back, as a tree.
  Python's \<^verbatim>\<open>json\<close> keeps integers and floats apart and keeps the members of an object
  in order. The history entries of the bandit are \<^verbatim>\<open>Dict[str, Any]\<close> in the source and
  are kept as such trees.
\<close>

datatype json =
    JNull
  | JBool bool
  | JInt int
  | JFloat real
  | JString pystr
  | JArray "json list"
  | JObject "(pystr \<times> json) list"

section \<open>The epsilon-greedy bandit (optimizer/bandit.py)\<close>

record bandit =
  prompts :: "pystr list"
  epsilon :: real
  "values" :: "(pystr, real) dict"
  counts :: "(pystr, int) dict"
  total_selections :: int
  history :: "json list"

text \<open>\<^verbatim>\<open>EpsilonGreedyBandit.__init__(prompts, epsilon, initial_value)\<close>\<close>

definition init :: "pystr list \<Rightarrow> real \<Rightarrow> real \<Rightarrow> bandit" where
  "init ps eps initial_value =
     \<lparr> prompts = ps,
       epsilon = eps,
       values = dict_comp (\<lambda>p. p) (\<lambda>p. initial_value) ps,
       counts = dict_comp (\<lambda>p. p) (\<lambda>p. 0) ps,
       total_selections = 0,
       history = [] \<rparr>"

text \<open>
  \<^verbatim>\<open>max(items, key=...)\<close> on the items paired with their keys: the running maximum is
  replaced only by a strictly greater key, so the earliest maximal item wins.
\<close>

fun max_from :: "'a \<times> real \<Rightarrow> ('a \<times> real) list \<Rightarrow> 'a" where
  "max_from (x, kx) [] = x"
| "max_from (x, kx) ((y, ky) # ys) =
     (if ky > kx then max_from (y, ky) ys else max_from (x, kx) ys)"

text \<open>
  The keys \<^verbatim>\<open>self.values[p]\<close> of all items, in order; the first missing key raises
  \<^verbatim>\<open>KeyError\<close>.
\<close>

fun keyed :: "(pystr, real) dict \<Rightarrow> pystr list \<Rightarrow> error + (pystr \<times> real) list" where
  "keyed d [] = Inr []"
| "keyed d (p # ps) =
     (case map_of d p of
        None \<Rightarrow> Inl (KeyError p)
      | Some v \<Rightarrow> (case keyed d ps of Inl e \<Rightarrow> Inl e | Inr kvs \<Rightarrow> Inr ((p, v) # kvs)))"

definition max_prompt :: "(pystr, real) dict \<Rightarrow> pystr list \<Rightarrow> error + pystr" where
  "max_prompt d ps =
     (case keyed d ps of
        Inl e \<Rightarrow> Inl e
      | Inr [] \<Rightarrow> Inl (ValueError (str ''max() arg is an empty sequence''))
      | Inr (kv # kvs) \<Rightarrow> Inr (max_from kv kvs))"

text \<open>
  \<^verbatim>\<open>pick\<close>. The two random draws are arguments: \<open>u\<close> is the value of
  \<^verbatim>\<open>random.random()\<close> and \<open>k\<close> the draw behind \<^verbatim>\<open>random.choice\<close>, reduced to an index
  of the prompt list. The counter is incremented before anything can raise.
\<close>

definition pick :: "bandit \<Rightarrow> real \<Rightarrow> nat \<Rightarrow> (pystr, bandit) call_result" where
  "pick b u k =
     (let b1 = b\<lparr>total_selections := total_selections b + 1\<rparr>;
          chosen =
            (if u < epsilon b1 then
               (if prompts b1 = [] then Inl IndexError
                else Inr (prompts b1 ! (k mod length (prompts b1)), str ''explore''))
             else
               (case max_prompt (values b1) (prompts b1) of
                  Inl e \<Rightarrow> Inl e
                | Inr p \<Rightarrow> Inr (p, str ''exploit'')))
      in case chosen of
           Inl e \<Rightarrow> (Inl e, b1)
         | Inr (prompt, selection_type) \<Rightarrow>
             (case map_of (values b1) prompt of
                None \<Rightarrow> (Inl (KeyError prompt), b1)
              | Some v \<Rightarrow>
                  (Inr prompt,
                   b1\<lparr>history := history b1 @
                        [JObject [(str ''selection'', JInt (total_selections b1)),
                                  (str ''prompt'', JString prompt),
                                  (str ''type'', JString selection_type),
                                  (str ''value'', JFloat v)]]\<rparr>)))"

text \<open>
  \<^verbatim>\<open>update(prompt, reward)\<close>. The membership test comes first and raises before any
  assignment; the later lookups raise after the count has been stored. The new value
  \<^verbatim>\<open>old_value + (reward - old_value) / n\<close> is computed in doubles, each of the three
  operations rounding its result; the count \<^verbatim>\<open>n\<close> is an \<^verbatim>\<open>int\<close> and is converted to
  a float for the division.
\<close>

definition update :: "bandit \<Rightarrow> pystr \<Rightarrow> real \<Rightarrow> (unit, bandit) call_result" where
  "update b prompt reward =
     (if prompt \<notin> set (prompts b) then
        (Inl (ValueError (str ''Unknown prompt: '' @ prompt)), b)
      else
        (case map_of (counts b) prompt of
           None \<Rightarrow> (Inl (KeyError prompt), b)
         | Some c \<Rightarrow>
             (let n = c + 1;
                  b1 = b\<lparr>counts := AList.update prompt n (counts b)\<rparr>
              in case map_of (values b1) prompt of
                   None \<Rightarrow> (Inl (KeyError prompt), b1)
                 | Some old_value \<Rightarrow>
                     (if n = 0 then (Inl ZeroDivisionError, b1)
                      else
                        (let new_value =
                               float_add old_value
                                 (float_div (float_sub reward old_value) (float_of_int n));
                             b2 = b1\<lparr>values := AList.update prompt new_value (values b1)\<rparr>
                         in (Inr (),
                             b2\<lparr>history := history b2 @
                                  [JObject [(str ''selection'', JInt (total_selections b2)),
                                            (str ''prompt'', JString prompt),
                                            (str ''type'', JString (str ''update'')),
                                            (str ''reward'', JFloat reward),
                                            (str ''new_value'', JFloat new_value),
                                            (str ''count'', JInt n)]]\<rparr>))))))"

text \<open>
  A caller's sequence of calls on one bandit. Each call leaves the bandit in the state
  paired with its outcome, whether it returned or raised.
\<close>

datatype call = Pick real nat | Update pystr real

fun after_call :: "bandit \<Rightarrow> call \<Rightarrow> bandit" where
  "after_call b (Pick u k) = snd (pick b u k)"
| "after_call b (Update p r) = snd (update b p r)"

definition after_calls :: "bandit \<Rightarrow> call list \<Rightarrow> bandit" where
  "after_calls b cs = foldl after_call b cs"

text \<open>The rewards that a sequence of calls passes to \<^verbatim>\<open>update\<close> for the prompt \<open>p\<close>.\<close>

fun rewards_of :: "pystr \<Rightarrow> call list \<Rightarrow> real list" where
  "rewards_of p [] = []"
| "rewards_of p (Pick u k # cs) = rewards_of p cs"
| "rewards_of p (Update q r # cs) = (if q = p then r # rewards_of p cs else rewards_of p cs)"

definition mean :: "real list \<Rightarrow> real" where
  "mean rs = sum_list rs / real (length rs)"

text \<open>
  \<^verbatim>\<open>list.sort(key=..., reverse=True)\<close>: Python's sort is stable, and with
  \<^verbatim>\<open>reverse=True\<close> items of equal key still keep their original order. It is modelled
  by the stable insertion sort of the library on the negated key.
\<close>

definition sort_reverse :: "('a \<Rightarrow> real) \<Rightarrow> 'a list \<Rightarrow> 'a list" where
  "sort_reverse key xs = sort_key (\<lambda>x. - key x) xs"

text \<open>\<^verbatim>\<open>get_stats\<close>: one row per entry of the prompt list, then sorted by value.\<close>

record prompt_stat =
  stat_prompt :: pystr
  stat_value :: real
  stat_count :: int
  selection_rate :: real

record stats =
  stats_total_selections :: int
  stats_epsilon :: real
  stats_prompts :: "prompt_stat list"

fun stat_rows :: "bandit \<Rightarrow> pystr list \<Rightarrow> error + prompt_stat list" where
  "stat_rows b [] = Inr []"
| "stat_rows b (p # ps) =
     (case map_of (values b) p of
        None \<Rightarrow> Inl (KeyError p)
      | Some v \<Rightarrow>
          (case map_of (counts b) p of
             None \<Rightarrow> Inl (KeyError p)
           | Some c \<Rightarrow>
               (case stat_rows b ps of
                  Inl e \<Rightarrow> Inl e
                | Inr rows \<Rightarrow>
                    Inr (\<lparr> stat_prompt = p, stat_value = v, stat_count = c,
                           selection_rate = of_int c / of_int (max 1 (total_selections b)) \<rparr>
                         # rows))))"

definition get_stats :: "bandit \<Rightarrow> error + stats" where
  "get_stats b =
     (case stat_rows b (prompts b) of
        Inl e \<Rightarrow> Inl e
      | Inr rows \<Rightarrow>
          Inr \<lparr> stats_total_selections = total_selections b,
                stats_epsilon = epsilon b,
                stats_prompts = sort_reverse stat_value rows \<rparr>)"

text \<open>
  \<^verbatim>\<open>save_state\<close> and \<^verbatim>\<open>load_state\<close>. The file system is a map from paths to the
  documents stored there; \<^verbatim>\<open>json.dump\<close> followed by \<^verbatim>\<open>json.load\<close> hands back the
  document that was written. Opening the file for writing is taken to succeed.
\<close>

type_synonym files = "pystr \<rightharpoonup> json"

definition save_state :: "bandit \<Rightarrow> pystr \<Rightarrow> files \<Rightarrow> files" where
  "save_state b filepath fs =
     fs(filepath \<mapsto>
        JObject [(str ''prompts'', JArray (map JString (prompts b))),
                 (str ''epsilon'', JFloat (epsilon b)),
                 (str ''values'', JObject (map (\<lambda>(k, v). (k, JFloat v)) (values b))),
                 (str ''counts'', JObject (map (\<lambda>(k, c). (k, JInt c)) (counts b))),
                 (str ''total_selections'', JInt (total_selections b)),
                 (str ''history'', JArray (drop (length (history b) - 100) (history b)))])"

text \<open>
  \<^verbatim>\<open>state[key]\<close> on the loaded document, and the reading of a member as the type the
  bandit's field has. The source assigns whatever the document holds; a member of
  another JSON type has no counterpart in the typed record, and the model stops there
  with \<open>TypeError\<close>.
\<close>

fun json_get :: "json \<Rightarrow> pystr \<Rightarrow> error + json" where
  "json_get (JObject ms) k = (case map_of ms k of None \<Rightarrow> Inl (KeyError k) | Some v \<Rightarrow> Inr v)"
| "json_get j k = Inl TypeError"

fun as_float :: "json \<Rightarrow> real option" where
  "as_float (JFloat r) = Some r"
| "as_float (JInt i) = Some (of_int i)"
| "as_float j = None"

fun as_int :: "json \<Rightarrow> int option" where
  "as_int (JInt i) = Some i"
| "as_int j = None"

fun as_str :: "json \<Rightarrow> pystr option" where
  "as_str (JString s) = Some s"
| "as_str j = None"

fun all_some :: "'a option list \<Rightarrow> 'a list option" where
  "all_some [] = Some []"
| "all_some (None # xs) = None"
| "all_some (Some x # xs) = (case all_some xs of None \<Rightarrow> None | Some ys \<Rightarrow> Some (x # ys))"

fun as_list :: "(json \<Rightarrow> 'a option) \<Rightarrow> json \<Rightarrow> 'a list option" where
  "as_list conv (JArray js) = all_some (map conv js)"
| "as_list conv j = None"

fun as_dict :: "(json \<Rightarrow> 'a option) \<Rightarrow> json \<Rightarrow> (pystr, 'a) dict option" where
  "as_dict conv (JObject ms) =
     all_some (map (\<lambda>(k, j). case conv j of None \<Rightarrow> None | Some v \<Rightarrow> Some (k, v)) ms)"
| "as_dict conv j = None"

definition read_member :: "json \<Rightarrow> pystr \<Rightarrow> (json \<Rightarrow> 'a option) \<Rightarrow> error + 'a" where
  "read_member state k conv =
     (case json_get state k of
        Inl e \<Rightarrow> Inl e
      | Inr j \<Rightarrow> (case conv j of None \<Rightarrow> Inl TypeError | Some v \<Rightarrow> Inr v))"

text \<open>\<^verbatim>\<open>state.get("history", [])\<close>\<close>

definition history_member :: "json \<Rightarrow> error + json list" where
  "history_member state =
     (case json_get state (str ''history'') of
        Inl (KeyError k) \<Rightarrow> Inr []
      | Inl e \<Rightarrow> Inl e
      | Inr j \<Rightarrow> (case as_list Some j of None \<Rightarrow> Inl TypeError | Some h \<Rightarrow> Inr h))"

text \<open>
  The fields are assigned one after the other, so a document that lacks a later key
  leaves the earlier fields already overwritten.
\<close>

definition load_state :: "bandit \<Rightarrow> pystr \<Rightarrow> files \<Rightarrow> (unit, bandit) call_result" where
  "load_state b filepath fs =
     (case fs filepath of
        None \<Rightarrow> (Inl (FileNotFoundError filepath), b)
      | Some state \<Rightarrow>
     (case read_member state (str ''prompts'') (as_list as_str) of
        Inl e \<Rightarrow> (Inl e, b)
      | Inr ps \<Rightarrow> let b1 = b\<lparr>prompts := ps\<rparr> in
     (case read_member state (str ''epsilon'') as_float of
        Inl e \<Rightarrow> (Inl e, b1)
      | Inr eps \<Rightarrow> let b2 = b1\<lparr>epsilon := eps\<rparr> in
     (case read_member state (str ''values'') (as_dict as_float) of
        Inl e \<Rightarrow> (Inl e, b2)
      | Inr vs \<Rightarrow> let b3 = b2\<lparr>values := vs\<rparr> in
     (case read_member state (str ''counts'') (as_dict as_int) of
        Inl e \<Rightarrow> (Inl e, b3)
      | Inr cs \<Rightarrow> let b4 = b3\<lparr>counts := cs\<rparr> in
     (case read_member state (str ''total_selections'') as_int of
        Inl e \<Rightarrow> (Inl e, b4)
      | Inr n \<Rightarrow> let b5 = b4\<lparr>total_selections := n\<rparr> in
     (case history_member state of
        Inl e \<Rightarrow> (Inl e, b5)
      | Inr h \<Rightarrow> (Inr (), b5\<lparr>history := h\<rparr>))))))))"

section \<open>The statistics endpoint (server/api.py)\<close>

text \<open>
  \<^verbatim>\<open>GET /stats/{lang_code}\<close>. \<open>BANDITS\<close> is the module's dictionary of bandits by
  language code. The handler raises \<^verbatim>\<open>HTTPException(status_code=404, ...)\<close> for a code
  that is not a key and otherwise returns \<^verbatim>\<open>bandit.get_stats()\<close>.
\<close>

definition get_language_stats :: "(pystr, bandit) dict \<Rightarrow> pystr \<Rightarrow> error + stats" where
  "get_language_stats BANDITS lang_code =
     (case map_of BANDITS lang_code of
        None \<Rightarrow>
          Inl (HTTPException 404 (str ''Language '' @ lang_code @ str '' not initialized''))
      | Some bandit \<Rightarrow> get_stats bandit)"

text \<open>
  The status line of the response: the code of an \<^verbatim>\<open>HTTPException\<close>, 500 for any other
  exception that leaves the handler, 200 for a returned body.
\<close>

fun status_code :: "error + 'a \<Rightarrow> nat" where
  "status_code (Inl (HTTPException code detail)) = code"
| "status_code (Inl e) = 500"
| "status_code (Inr body) = 200"

section \<open>Metric results and the aggregator (metrics/base.py, utils/scoring.py)\<close>

text \<open>
  What \<^verbatim>\<open>Metric.score\<close> returns: the dictionary with the keys \<^verbatim>\<open>name\<close>, \<^verbatim>\<open>version\<close>,
  \<^verbatim>\<open>score\<close> and \<^verbatim>\<open>details\<close>. The details are free-form and kept as a tree.
\<close>

record metric_result =
  name :: pystr
  version :: pystr
  score :: real
  details :: json

text \<open>
  \<^verbatim>\<open>aggregate_scores\<close>: the loop adds \<^verbatim>\<open>weight * metric_score\<close> to \<^verbatim>\<open>total\<close>
  (here \<open>total_sum\<close>) and
  \<^verbatim>\<open>weight\<close> to \<^verbatim>\<open>total_weight\<close> for every entry whose name is a key of the weights.
\<close>

definition aggregate_step ::
  "(pystr, real) dict \<Rightarrow> metric_result \<Rightarrow> real \<times> real \<Rightarrow> real \<times> real" where
  "aggregate_step weights score_dict acc =
     (case acc of (total_sum, total_weight) \<Rightarrow>
        (case map_of weights (name score_dict) of
           None \<Rightarrow> (total_sum, total_weight)
         | Some weight \<Rightarrow> (total_sum + weight * score score_dict, total_weight + weight)))"

definition aggregate_scores :: "metric_result list \<Rightarrow> (pystr, real) dict \<Rightarrow> real" where
  "aggregate_scores component_scores weights =
     (case fold (aggregate_step weights) component_scores (0, 0) of
        (total_sum, total_weight) \<Rightarrow>
          (if total_weight > 0 then total_sum / total_weight else 0))"





section \<open>The candidate pipeline (gym/run.py, server/api.py)\<close>

text \<open>
  A metric object: its \<^verbatim>\<open>name\<close> and \<^verbatim>\<open>version\<close> attributes and its \<^verbatim>\<open>score(text, src)\<close>
  method, which returns a result or raises.
\<close>

datatype metric =
  Metric (metric_name: pystr) (metric_version: pystr)
         (metric_score: "pystr \<Rightarrow> pystr option \<Rightarrow> error + metric_result")

text \<open>\<^verbatim>\<open>str(e)\<close> of a raised exception, for the kinds of exception the model names.\<close>

fun exc_str :: "error \<Rightarrow> pystr" where
  "exc_str (ValueError msg) = msg"
| "exc_str (KeyError k) = str [CHR 0x27] @ k @ str [CHR 0x27]"
| "exc_str IndexError = str ''list index out of range''"
| "exc_str ZeroDivisionError = str ''division by zero''"
| "exc_str TypeError = str ''unsupported operand type''"
| "exc_str (FileNotFoundError path) = str ''No such file or directory: '' @ path"
| "exc_str (HTTPException code detail) = detail"

text \<open>
  \<^verbatim>\<open>score_text\<close>: every metric is run; one that raises contributes the score 0.0 and the
  error text. The aggregate of the component scores is returned with them.
\<close>

definition score_text ::
  "pystr \<Rightarrow> metric list \<Rightarrow> (pystr, real) dict \<Rightarrow> pystr option \<Rightarrow> real \<times> metric_result list" where
  "score_text candidate_text metrics weights src =
     (let component_scores =
            map (\<lambda>m. case metric_score m candidate_text src of
                         Inr score_result \<Rightarrow> score_result
                       | Inl e \<Rightarrow>
                           \<lparr> name = metric_name m, version = metric_version m, score = 0,
                             details = JObject [(str ''error'', JString (exc_str e))] \<rparr>)
                metrics;
          total_score = aggregate_scores component_scores weights
      in (total_score, component_scores))"

text \<open>The decimal digits of a natural number, as the f-string \<^verbatim>\<open>f"c{j}"\<close> prints them.\<close>

fun decimal :: "nat \<Rightarrow> pystr" where
  "decimal n = (if n < 10 then [48 + n] else decimal (n div 10) @ [48 + n mod 10])"

text \<open>
  A scored candidate. The API builds the keys \<^verbatim>\<open>id\<close>, \<^verbatim>\<open>tgt\<close>, \<^verbatim>\<open>R\<close> and
  \<^verbatim>\<open>breakdown\<close>; the gym runner names the text \<^verbatim>\<open>text\<close> and adds the \<^verbatim>\<open>details\<close> of
  every metric.
\<close>

record scored_candidate =
  cand_id :: pystr
  cand_text :: pystr
  R :: real
  breakdown :: "(pystr, real) dict"

record gym_candidate = scored_candidate +
  cand_details :: "(pystr, json) dict"

text \<open>\<^verbatim>\<open>enumerate(candidates)\<close>\<close>

definition enumerate_from0 :: "'a list \<Rightarrow> (nat \<times> 'a) list" where
  "enumerate_from0 xs = zip [0 ..< length xs] xs"

definition api_scored_candidates ::
  "metric list \<Rightarrow> (pystr, real) dict \<Rightarrow> pystr \<Rightarrow> pystr list \<Rightarrow> scored_candidate list" where
  "api_scored_candidates metrics weights src candidates =
     map (\<lambda>(i, candidate_text).
            case score_text candidate_text metrics weights (Some src) of
              (total_score, component_scores) \<Rightarrow>
                \<lparr> cand_id = str ''c'' @ decimal i,
                  cand_text = candidate_text,
                  R = total_score,
                  breakdown = dict_comp name score component_scores \<rparr>)
         (enumerate_from0 candidates)"

definition gym_scored_candidates ::
  "metric list \<Rightarrow> (pystr, real) dict \<Rightarrow> pystr \<Rightarrow> pystr list \<Rightarrow> gym_candidate list" where
  "gym_scored_candidates metrics weights src candidates =
     map (\<lambda>(j, candidate_text).
            case score_text candidate_text metrics weights (Some src) of
              (total_score, component_scores) \<Rightarrow>
                \<lparr> cand_id = str ''c'' @ decimal j,
                  cand_text = candidate_text,
                  R = total_score,
                  breakdown = dict_comp name score component_scores,
                  cand_details = dict_comp name details component_scores \<rparr>)
         (enumerate_from0 candidates)"

text \<open>
  The generators are external to the core: what they return is an input of the model.
  \<open>generate src k prompt temperature\<close> is \<^verbatim>\<open>generator.generate(...)\<close>, \<open>translate\<close> the
  single translation of the standard mode, and the last two belong to the showcase
  generator.
\<close>

record generator =
  generate :: "pystr \<Rightarrow> int \<Rightarrow> pystr \<Rightarrow> real \<Rightarrow> pystr list"
  translate :: "pystr \<Rightarrow> pystr \<Rightarrow> pystr"
  showcase_generate :: "pystr \<Rightarrow> int \<Rightarrow> pystr list"
  get_process_log :: "pystr \<Rightarrow> json"

text \<open>
  One iteration of the loop of \<^verbatim>\<open>main\<close> in gym/run.py: pick a prompt, generate, score,
  sort by \<^verbatim>\<open>R\<close> descending, take \<^verbatim>\<open>scored_candidates[0]\<close> (which raises on an empty
  list), update the bandit with the best reward. \<open>u\<close> and \<open>draw\<close> are the random draws of
  \<^verbatim>\<open>pick\<close>. The time stamp of the result is left out.
\<close>

record example =
  example_id :: pystr
  example_src :: pystr
  example_ref :: "pystr option"

record gym_result =
  result_example_id :: pystr
  result_src :: pystr
  result_ref :: "pystr option"
  best :: gym_candidate
  candidates :: "gym_candidate list"
  result_prompt :: pystr
  result_weights :: "(pystr, real) dict"

definition process_example ::
  "bandit \<Rightarrow> generator \<Rightarrow> metric list \<Rightarrow> (pystr, real) dict \<Rightarrow> int \<Rightarrow> real \<Rightarrow> example \<Rightarrow>
     real \<Rightarrow> nat \<Rightarrow> (gym_result, bandit) call_result" where
  "process_example bandit0 gen metrics weights k temperature ex u draw =
     (case pick bandit0 u draw of
        (Inl e, bandit1) \<Rightarrow> (Inl e, bandit1)
      | (Inr prompt, bandit1) \<Rightarrow>
          (let cands = generate gen (example_src ex) k prompt temperature;
               scored = sort_reverse R (gym_scored_candidates metrics weights (example_src ex) cands)
           in case scored of
                [] \<Rightarrow> (Inl IndexError, bandit1)
              | best_candidate # rest \<Rightarrow>
                  (case update bandit1 prompt (R best_candidate) of
                     (Inl e, bandit2) \<Rightarrow> (Inl e, bandit2)
                   | (Inr ok, bandit2) \<Rightarrow>
                       (Inr \<lparr> result_example_id = example_id ex,
                              result_src = example_src ex,
                              result_ref = example_ref ex,
                              best = best_candidate,
                              candidates = scored,
                              result_prompt = prompt,
                              result_weights = weights \<rparr>,
                        bandit2))))"

text \<open>
  The body of the segment loop of \<^verbatim>\<open>translate\<close> in server/api.py. The mode is the
  request's string; \<open>k_samples\<close>, \<open>temperature\<close> and \<open>prompt_template\<close> come from the
  language configuration. The response holds the text of the best candidate only.
\<close>

record segment =
  segment_id :: pystr
  segment_src :: pystr

record translation_result =
  translation_id :: pystr
  best_tgt :: pystr
  translation_candidates :: "scored_candidate list"
  translation_prompt :: pystr
  translation_weights :: "(pystr, real) dict"
  process_log :: "json option"

definition translate_segment ::
  "bandit \<Rightarrow> generator \<Rightarrow> metric list \<Rightarrow> (pystr, real) dict \<Rightarrow> int \<Rightarrow> real \<Rightarrow> pystr \<Rightarrow>
     pystr \<Rightarrow> segment \<Rightarrow> real \<Rightarrow> nat \<Rightarrow> (translation_result, bandit) call_result" where
  "translate_segment bandit0 gen metrics weights k_samples temperature prompt_template
       request_mode seg u draw =
     (let generated =
            (if request_mode = str ''showcase'' then
               (Inr (str ''Showcase mode - curated demonstration'',
                     showcase_generate gen (segment_src seg) k_samples,
                     Some (get_process_log gen (segment_src seg))),
                bandit0)
             else if request_mode = str ''rlvr'' then
               (case pick bandit0 u draw of
                  (Inl e, bandit1) \<Rightarrow> (Inl e, bandit1)
                | (Inr prompt, bandit1) \<Rightarrow>
                    (Inr (prompt, generate gen (segment_src seg) k_samples prompt temperature,
                          None),
                     bandit1))
             else
               (Inr (prompt_template, [translate gen (segment_src seg) prompt_template], None),
                bandit0))
      in case generated of
           (Inl e, bandit1) \<Rightarrow> (Inl e, bandit1)
         | (Inr (prompt, cands, plog), bandit1) \<Rightarrow>
             (let scored =
                    sort_reverse R (api_scored_candidates metrics weights (segment_src seg) cands)
              in case scored of
                   [] \<Rightarrow> (Inl IndexError, bandit1)
                 | best_candidate # rest \<Rightarrow>
                     (let updated =
                            (if request_mode \<noteq> str ''showcase''
                             then update bandit1 prompt (R best_candidate)
                             else (Inr (), bandit1))
                      in case updated of
                           (Inl e, bandit2) \<Rightarrow> (Inl e, bandit2)
                         | (Inr ok, bandit2) \<Rightarrow>
                             (Inr \<lparr> translation_id = segment_id seg,
                                    best_tgt = cand_text best_candidate,
                                    translation_candidates = scored,
                                    translation_prompt = prompt,
                                    translation_weights = weights,
                                    process_log = plog \<rparr>,
                              bandit2))))"

text \<open>
  The ranking in the words of the specification: \<open>out\<close> is a permutation of the scored
  candidates, sorted by \<^verbatim>\<open>R\<close> descending, and candidates of equal \<^verbatim>\<open>R\<close> stand in
  \<open>out\<close> in the order in which they were generated.
\<close>

definition ranked_by_R ::
  "'a scored_candidate_scheme list \<Rightarrow> 'a scored_candidate_scheme list \<Rightarrow> bool" where
  "ranked_by_R scored out \<longleftrightarrow>
     mset out = mset scored \<and>
     sorted_wrt (\<lambda>a b. R a \<ge> R b) out \<and>
     (\<forall>r. filter (\<lambda>c. R c = r) out = filter (\<lambda>c. R c = r) scored)"

text \<open>A fixed generator, example and segment on which the pipeline is run below.\<close>

definition example_generator :: generator where
  "example_generator =
     \<lparr> generate = (\<lambda>src k prompt temperature. [str ''Aole hele.'', str ''Hele.'']),
       translate = (\<lambda>src prompt. str ''Hele.''),
       showcase_generate = (\<lambda>src k. [str ''Hele.'']),
       get_process_log = (\<lambda>src. JNull) \<rparr>"

definition example_go :: example where
  "example_go = \<lparr> example_id = str ''1'', example_src = str ''Go.'', example_ref = None \<rparr>"

definition segment_go :: segment where
  "segment_go = \<lparr> segment_id = str ''1'', segment_src = str ''Go.'' \<rparr>"

section \<open>String methods\<close>

text \<open>
  \<^verbatim>\<open>str.isspace\<close> on one code point (the white space of Unicode), \<^verbatim>\<open>str.split()\<close>
  without arguments (the maximal runs of characters that are not white space) and
  \<^verbatim>\<open>str.strip()\<close>.
\<close>

definition isspace :: "nat \<Rightarrow> bool" where
  "isspace c \<longleftrightarrow>
     c \<in> set [9, 10, 11, 12, 13, 28, 29, 30, 31, 32, 133, 160, 5760, 8232, 8233, 8239, 8287, 12288]
     \<or> (8192 \<le> c \<and> c \<le> 8202)"

fun split_from :: "pystr \<Rightarrow> pystr \<Rightarrow> pystr list" where
  "split_from cur [] = (if cur = [] then [] else [cur])"
| "split_from cur (c # cs) =
     (if isspace c then (if cur = [] then split_from [] cs else cur # split_from [] cs)
      else split_from (cur @ [c]) cs)"

definition py_split :: "pystr \<Rightarrow> pystr list" where
  "py_split s = split_from [] s"

definition py_strip :: "pystr \<Rightarrow> pystr" where
  "py_strip s = rev (dropWhile isspace (rev (dropWhile isspace s)))"

text \<open>\<^verbatim>\<open>s.strip(chars)\<close> and \<^verbatim>\<open>s.rstrip(chars)\<close> with a set of characters.\<close>

definition rstrip_chars :: "pystr \<Rightarrow> pystr \<Rightarrow> pystr" where
  "rstrip_chars chars s = rev (dropWhile (\<lambda>c. c \<in> set chars) (rev s))"

definition strip_chars :: "pystr \<Rightarrow> pystr \<Rightarrow> pystr" where
  "strip_chars chars s = rstrip_chars chars (dropWhile (\<lambda>c. c \<in> set chars) s)"

definition startswith :: "pystr \<Rightarrow> pystr \<Rightarrow> bool" where
  "startswith s p \<longleftrightarrow> take (length p) s = p"

definition endswith :: "pystr \<Rightarrow> pystr \<Rightarrow> bool" where
  "endswith s p \<longleftrightarrow> length p \<le> length s \<and> drop (length s - length p) s = p"

text \<open>\<^verbatim>\<open>sub in s\<close> for strings.\<close>

fun contains :: "pystr \<Rightarrow> pystr \<Rightarrow> bool" where
  "contains [] sub = (sub = [])"
| "contains (c # cs) sub = (startswith (c # cs) sub \<or> contains cs sub)"

text \<open>
  \<^verbatim>\<open>s.replace(old, new)\<close> for a non-empty \<open>old\<close>: the occurrences are replaced from left
  to right and do not overlap. \<open>skip\<close> counts the characters of an occurrence that are
  still to be passed over.
\<close>

fun replace_skip :: "pystr \<Rightarrow> pystr \<Rightarrow> nat \<Rightarrow> pystr \<Rightarrow> pystr" where
  "replace_skip old new skip [] = []"
| "replace_skip old new (Suc n) (c # cs) = replace_skip old new n cs"
| "replace_skip old new 0 (c # cs) =
     (if startswith (c # cs) old then new @ replace_skip old new (length old - 1) cs
      else c # replace_skip old new 0 cs)"

definition replace :: "pystr \<Rightarrow> pystr \<Rightarrow> pystr \<Rightarrow> pystr" where
  "replace s old new = replace_skip old new 0 s"

text \<open>
  The string methods whose result depends on the Unicode character tables are arguments
  of the model: \<^verbatim>\<open>s.lower()\<close>, and \<^verbatim>\<open>c.islower()\<close> and \<^verbatim>\<open>c.isalnum()\<close> on a string.
  Every statement below holds whatever these functions are.
\<close>

record str_methods =
  lower :: "pystr \<Rightarrow> pystr"
  islower :: "pystr \<Rightarrow> bool"
  isalnum :: "pystr \<Rightarrow> bool"

text \<open>
  The methods on the letters the Hawaiian examples below use: the ASCII letters and
  the vowels with macron change case, every other code point (the okina among them)
  has none.
\<close>

definition lower_char :: "nat \<Rightarrow> nat" where
  "lower_char c =
     (if 65 \<le> c \<and> c \<le> 90 then c + 32
      else if c \<in> set [0x100, 0x112, 0x12A, 0x14C, 0x16A] then c + 1
      else c)"

definition is_lower_char :: "nat \<Rightarrow> bool" where
  "is_lower_char c \<longleftrightarrow> (97 \<le> c \<and> c \<le> 122) \<or> c \<in> set [0x101, 0x113, 0x12B, 0x14D, 0x16B]"

definition is_alnum_char :: "nat \<Rightarrow> bool" where
  "is_alnum_char c \<longleftrightarrow>
     (48 \<le> c \<and> c \<le> 57) \<or> (65 \<le> c \<and> c \<le> 90) \<or> is_lower_char c
     \<or> c \<in> set [0x100, 0x112, 0x12A, 0x14C, 0x16A]"

definition example_methods :: str_methods where
  "example_methods =
     \<lparr> lower = map lower_char,
       islower = (\<lambda>s. list_ex is_lower_char s \<and> \<not> list_ex (\<lambda>c. lower_char c \<noteq> c) s),
       isalnum = (\<lambda>s. s \<noteq> [] \<and> list_all is_alnum_char s) \<rparr>"

section \<open>The Hawaiian metrics (metrics/diacritics.py, tam_particles.py, articles_ke_ka.py)\<close>

text \<open>
  \<^verbatim>\<open>_normalize_word\<close>, the same in \<^verbatim>\<open>Diacritics\<close> and \<^verbatim>\<open>ArticlesKeKa\<close>: the characters of
  the class \<^verbatim>\<open>[.,!?;:"]\<close> are removed, then the white space at both ends.
\<close>

definition normalize_word :: "pystr \<Rightarrow> pystr" where
  "normalize_word word = py_strip (filter (\<lambda>c. c \<notin> set (str ''.,!?;:'' @ [34])) word)"

text \<open>
  \<^verbatim>\<open>_strip_diacritics\<close>: the okina is removed and every vowel with macron replaced by
  the plain vowel.
\<close>

definition plain_vowel :: "nat \<Rightarrow> nat" where
  "plain_vowel c =
     (if c = 0x101 then 97 else if c = 0x113 then 101 else if c = 0x12B then 105
      else if c = 0x14D then 111 else if c = 0x16B then 117
      else if c = 0x100 then 65 else if c = 0x112 then 69 else if c = 0x12A then 73
      else if c = 0x14C then 79 else if c = 0x16A then 85 else c)"

definition strip_diacritics :: "pystr \<Rightarrow> pystr" where
  "strip_diacritics word = map plain_vowel (filter (\<lambda>c. c \<noteq> okina) word)"

text \<open>
  \<^verbatim>\<open>Diacritics\<close>. The object holds the required forms read from the lexicon; the list
  is the order in which the loop over the set meets them.
\<close>

record Diacritics =
  required_forms :: "pystr list"

record checked_word =
  checked_word :: pystr
  checked_normalized :: pystr
  checked_required :: pystr
  checked_correct :: bool

definition check_word :: "str_methods \<Rightarrow> Diacritics \<Rightarrow> pystr \<Rightarrow> checked_word option" where
  "check_word U self word =
     (let normalized = lower U (normalize_word word);
          base_form = strip_diacritics normalized
      in case find (\<lambda>required. base_form = strip_diacritics required) (required_forms self) of
           None \<Rightarrow> None
         | Some required \<Rightarrow>
             Some \<lparr> checked_word = word, checked_normalized = normalized,
                    checked_required = required, checked_correct = (normalized = required) \<rparr>)"

text \<open>One pass of the loop over the words: the pair is (words_to_check, correct_count).\<close>

definition diacritics_step ::
  "str_methods \<Rightarrow> Diacritics \<Rightarrow> pystr \<Rightarrow> checked_word list \<times> nat \<Rightarrow> checked_word list \<times> nat" where
  "diacritics_step U self word acc =
     (case acc of (words_to_check, correct_count) \<Rightarrow>
        (case check_word U self word of
           None \<Rightarrow> (words_to_check, correct_count)
         | Some w \<Rightarrow>
             (words_to_check @ [w],
              if checked_correct w then correct_count + 1 else correct_count)))"

definition checked_word_json :: "checked_word \<Rightarrow> json" where
  "checked_word_json w =
     JObject [(str ''word'', JString (checked_word w)),
              (str ''normalized'', JString (checked_normalized w)),
              (str ''required'', JString (checked_required w)),
              (str ''correct'', JBool (checked_correct w))]"

definition Diacritics_score ::
  "str_methods \<Rightarrow> Diacritics \<Rightarrow> pystr \<Rightarrow> pystr option \<Rightarrow> metric_result" where
  "Diacritics_score U self text src =
     (case fold (diacritics_step U self) (py_split text) ([], 0) of
        (words_to_check, correct_count) \<Rightarrow>
          \<lparr> name = str ''diacritics'',
            version = str ''1.0'',
            score = (if words_to_check = [] then 1
                     else real correct_count / real (length words_to_check)),
            details =
              JObject [(str ''checked'', JInt (int (length words_to_check))),
                       (str ''correct'', JInt (int correct_count)),
                       (str ''words_checked'', JArray (map (\<lambda>w. JString (checked_word w)) words_to_check)),
                       (str ''errors'',
                        JArray (map checked_word_json
                                  (filter (\<lambda>w. \<not> checked_correct w) words_to_check)))] \<rparr>)"

text \<open>
  \<^verbatim>\<open>TAMParticles\<close>. The rule table is the JSON file of the language pack: the keys read
  with \<^verbatim>\<open>[...]\<close> are fields, the two read with \<^verbatim>\<open>.get\<close> are optional. \<open>search p t\<close> is
  \<^verbatim>\<open>re.search(p, t, re.IGNORECASE)\<close> for a pattern \<open>p\<close> of the table, an argument of the
  model; the marker is compiled with the same flag.
\<close>

record tam_patterns =
  neg_marker :: pystr
  neg_valid :: "pystr list"
  neg_invalid :: "pystr list option"
  aff_valid :: "pystr list"
  verb_pattern_entry :: "pystr option"

record TAMParticles =
  patterns :: tam_patterns
  verb_pattern :: pystr

definition default_verb_pattern :: pystr where
  "default_verb_pattern =
     str ''[A-Za-z'' @ [0x101, 0x113, 0x12B, 0x14D, 0x16B, 0x100, 0x112, 0x12A, 0x14C, 0x16A]
       @ str ''][a-z'' @ [0x101, 0x113, 0x12B, 0x14D, 0x16B] @ str '']*''"

definition TAMParticles_init :: "tam_patterns \<Rightarrow> TAMParticles" where
  "TAMParticles_init table =
     \<lparr> patterns = table,
       verb_pattern = (case verb_pattern_entry table of
                         None \<Rightarrow> default_verb_pattern
                       | Some p \<Rightarrow> p) \<rparr>"

text \<open>The templates of a list that match the text once \<^verbatim>\<open>VERB\<close> is substituted.\<close>

definition matching_templates ::
  "(pystr \<Rightarrow> pystr \<Rightarrow> bool) \<Rightarrow> TAMParticles \<Rightarrow> pystr \<Rightarrow> pystr list \<Rightarrow> pystr list" where
  "matching_templates search self text templates =
     filter (\<lambda>pattern_template.
               search (replace pattern_template (str ''VERB'') (verb_pattern self)) text)
            templates"

text \<open>
  The dictionary that \<^verbatim>\<open>_check_negative_context\<close> returns has \<^verbatim>\<open>has_negative = False\<close>
  and \<^verbatim>\<open>valid = True\<close> when the marker is not found, and otherwise \<^verbatim>\<open>has_negative = True\<close>
  with the two lists of matching templates.
\<close>

datatype neg_check =
    NoNegative
  | Negative (valid_patterns: "pystr list") (invalid_patterns: "pystr list")

fun has_negative :: "neg_check \<Rightarrow> bool" where
  "has_negative NoNegative = False"
| "has_negative (Negative vps ips) = True"

fun neg_valid_flag :: "neg_check \<Rightarrow> bool" where
  "neg_valid_flag NoNegative = True"
| "neg_valid_flag (Negative vps ips) = (length vps > 0 \<and> length ips = 0)"

fun neg_check_json :: "neg_check \<Rightarrow> json" where
  "neg_check_json NoNegative =
     JObject [(str ''has_negative'', JBool False),
              (str ''valid'', JBool True),
              (str ''details'', JString (str ''No negative marker found''))]"
| "neg_check_json (Negative vps ips) =
     JObject [(str ''has_negative'', JBool True),
              (str ''valid'', JBool (length vps > 0 \<and> length ips = 0)),
              (str ''valid_patterns'', JArray (map JString vps)),
              (str ''invalid_patterns'', JArray (map JString ips)),
              (str ''details'',
               JString (str ''Found '' @ decimal (length vps) @ str '' valid, ''
                        @ decimal (length ips) @ str '' invalid patterns''))]"

definition check_negative_context ::
  "(pystr \<Rightarrow> pystr \<Rightarrow> bool) \<Rightarrow> TAMParticles \<Rightarrow> pystr \<Rightarrow> neg_check" where
  "check_negative_context search self text =
     (if \<not> search (neg_marker (patterns self)) text then NoNegative
      else Negative
             (matching_templates search self text (neg_valid (patterns self)))
             (matching_templates search self text
                (case neg_invalid (patterns self) of None \<Rightarrow> [] | Some ps \<Rightarrow> ps)))"

text \<open>
  \<^verbatim>\<open>_check_affirmative_context\<close>: the matching templates are collected, and \<^verbatim>\<open>valid\<close> is
  the constant \<^verbatim>\<open>True\<close>.
\<close>

record aff_check =
  aff_valid_flag :: bool
  aff_valid_patterns :: "pystr list"

definition check_affirmative_context ::
  "(pystr \<Rightarrow> pystr \<Rightarrow> bool) \<Rightarrow> TAMParticles \<Rightarrow> pystr \<Rightarrow> aff_check" where
  "check_affirmative_context search self text =
     \<lparr> aff_valid_flag = True,
       aff_valid_patterns = matching_templates search self text (aff_valid (patterns self)) \<rparr>"

definition aff_check_json :: "aff_check \<Rightarrow> json" where
  "aff_check_json c =
     JObject [(str ''has_negative'', JBool False),
              (str ''valid'', JBool (aff_valid_flag c)),
              (str ''valid_patterns'', JArray (map JString (aff_valid_patterns c))),
              (str ''details'',
               JString (str ''Found '' @ decimal (length (aff_valid_patterns c))
                        @ str '' TAM patterns''))]"

definition TAMParticles_score ::
  "(pystr \<Rightarrow> pystr \<Rightarrow> bool) \<Rightarrow> TAMParticles \<Rightarrow> pystr \<Rightarrow> pystr option \<Rightarrow> metric_result" where
  "TAMParticles_score search self text src =
     (let neg = check_negative_context search self text
      in case neg of
           Negative vps ips \<Rightarrow>
             \<lparr> name = str ''tam_particles'',
               version = str ''1.0'',
               score = (if neg_valid_flag neg then 1 else if ips \<noteq> [] then 0 else 1 / 2),
               details = neg_check_json neg \<rparr>
         | NoNegative \<Rightarrow>
             (let aff = check_affirmative_context search self text
              in \<lparr> name = str ''tam_particles'',
                   version = str ''1.0'',
                   score = (if aff_valid_flag aff then 1 else 7 / 10),
                   details = aff_check_json aff \<rparr>))"

text \<open>
  A stand-in for the regular expression engine on patterns without metacharacters:
  such a pattern is found, ignoring case, where the lower-cased text contains the
  lower-cased pattern.
\<close>

definition literal_search :: "pystr \<Rightarrow> pystr \<Rightarrow> bool" where
  "literal_search p t = contains (map lower_char t) (map lower_char p)"

text \<open>
  A rule table in the spirit of the metric's documentation (the negation marker followed
  by the particle \<^verbatim>\<open>ua\<close> is invalid), and the text of the hard-fail scenario:
  okina, A, okina, o, l, e, space, u, a, full stop.
\<close>

definition aole :: pystr where
  "aole = [okina] @ str ''a'' @ [okina] @ str ''ole''"

definition example_tam :: TAMParticles where
  "example_tam =
     TAMParticles_init
       \<lparr> neg_marker = aole,
         neg_valid = [aole @ str '' e '', aole @ str '' i ''],
         neg_invalid = Some [aole @ str '' ua''],
         aff_valid = [str ''ua '', str ''ke ''],
         verb_pattern_entry = None \<rparr>"

definition aole_ua :: pystr where
  "aole_ua = [okina] @ str ''A'' @ [okina] @ str ''ole ua.''"

text \<open>
  \<^verbatim>\<open>ArticlesKeKa\<close>. The object holds the exceptions read from the resource file (lower
  case); only membership is asked of the set.
\<close>

record ArticlesKeKa =
  ke_exceptions :: "pystr list"

definition should_use_ke :: "str_methods \<Rightarrow> ArticlesKeKa \<Rightarrow> pystr \<Rightarrow> bool" where
  "should_use_ke U self word =
     (let normalized = lower U (normalize_word word)
      in if normalized \<in> set (ke_exceptions self) then True
         else (case normalized of
                 [] \<Rightarrow> False
               | first_letter # rest \<Rightarrow> first_letter \<in> set (str ''keao'' @ [okina])))"

text \<open>
  \<^verbatim>\<open>_find_article_pairs\<close>: for every index but the last, a word that is \<^verbatim>\<open>ke\<close> or
  \<^verbatim>\<open>ka\<close> in lower case is paired with the word after it.
\<close>

fun find_article_pairs_from ::
  "str_methods \<Rightarrow> nat \<Rightarrow> pystr list \<Rightarrow> (nat \<times> pystr \<times> pystr) list" where
  "find_article_pairs_from U i (w # next_word # ws) =
     (if lower U w \<in> set [str ''ke'', str ''ka'']
      then (i, w, next_word) # find_article_pairs_from U (i + 1) (next_word # ws)
      else find_article_pairs_from U (i + 1) (next_word # ws))"
| "find_article_pairs_from U i ws = []"

definition find_article_pairs :: "str_methods \<Rightarrow> pystr list \<Rightarrow> (nat \<times> pystr \<times> pystr) list" where
  "find_article_pairs U ws = find_article_pairs_from U 0 ws"

definition is_correct :: "str_methods \<Rightarrow> ArticlesKeKa \<Rightarrow> nat \<times> pystr \<times> pystr \<Rightarrow> bool" where
  "is_correct U self pair =
     (case pair of (idx, article, next_word) \<Rightarrow>
        (let should_be_ke = should_use_ke U self next_word
         in (should_be_ke \<and> lower U article = str ''ke'') \<or>
            (\<not> should_be_ke \<and> lower U article = str ''ka'')))"

definition pair_json :: "str_methods \<Rightarrow> ArticlesKeKa \<Rightarrow> nat \<times> pystr \<times> pystr \<Rightarrow> json" where
  "pair_json U self pair =
     (case pair of (idx, article, next_word) \<Rightarrow>
        JObject [(str ''article'', JString article),
                 (str ''word'', JString next_word),
                 (str ''correct'', JBool (is_correct U self pair)),
                 (str ''should_be'',
                  JString (if should_use_ke U self next_word then str ''ke'' else str ''ka'')),
                 (str ''reason'',
                  JString (if lower U next_word \<in> set (ke_exceptions self)
                           then str ''exception'' else str ''KEAO rule''))])"

text \<open>One pass of the loop over the pairs: the accumulator is \<^verbatim>\<open>correct_count\<close>.\<close>

definition count_step ::
  "str_methods \<Rightarrow> ArticlesKeKa \<Rightarrow> nat \<times> pystr \<times> pystr \<Rightarrow> nat \<Rightarrow> nat" where
  "count_step U self pair correct_count =
     (if is_correct U self pair then correct_count + 1 else correct_count)"

definition ArticlesKeKa_score ::
  "str_methods \<Rightarrow> ArticlesKeKa \<Rightarrow> pystr \<Rightarrow> pystr option \<Rightarrow> metric_result" where
  "ArticlesKeKa_score U self text src =
     (let pairs = find_article_pairs U (py_split text)
      in if pairs = [] then
           \<lparr> name = str ''articles_ke_ka'', version = str ''1.0'', score = 1,
             details = JObject [(str ''checked'', JInt 0), (str ''correct'', JInt 0),
                                (str ''pairs'', JArray [])] \<rparr>
         else
           (let correct_count = fold (count_step U self) pairs 0
            in \<lparr> name = str ''articles_ke_ka'', version = str ''1.0'',
                 score = real correct_count / real (length pairs),
                 details =
                   JObject [(str ''checked'', JInt (int (length pairs))),
                            (str ''correct'', JInt (int correct_count)),
                            (str ''pairs'', JArray (map (pair_json U self) pairs)),
                            (str ''errors'',
                             JArray (map (pair_json U self)
                                       (filter (\<lambda>p. \<not> is_correct U self p) pairs)))] \<rparr>))"

text \<open>
  The rule in the words of the specification: \<^verbatim>\<open>ke\<close> is required when the first
  character of the word is one of k, e, a, o, or the word is in the exception list, and
  \<^verbatim>\<open>ka\<close> in every other case.
\<close>

definition requires_ke_spec :: "str_methods \<Rightarrow> ArticlesKeKa \<Rightarrow> pystr \<Rightarrow> bool" where
  "requires_ke_spec U self word \<longleftrightarrow>
     lower U (normalize_word word) \<in> set (ke_exceptions self) \<or>
     (case lower U (normalize_word word) of
        [] \<Rightarrow> False
      | first_letter # rest \<Rightarrow> first_letter \<in> set (str ''keao''))"

text \<open>The rule the code applies: the okina counts with k, e, a and o.\<close>

definition requires_ke :: "str_methods \<Rightarrow> ArticlesKeKa \<Rightarrow> pystr \<Rightarrow> bool" where
  "requires_ke U self word \<longleftrightarrow>
     lower U (normalize_word word) \<in> set (ke_exceptions self) \<or>
     (case lower U (normalize_word word) of
        [] \<Rightarrow> False
      | first_letter # rest \<Rightarrow> first_letter \<in> set (str ''keao'' @ [okina]))"

text \<open>Two more texts with the negation marker, and two without it.\<close>

definition aole_hele :: pystr where
  "aole_hele = [okina] @ str ''A'' @ [okina] @ str ''ole hele.''"

definition aole_e_hele :: pystr where
  "aole_e_hele = [okina] @ str ''A'' @ [okina] @ str ''ole e hele ana.''"

definition ua_hele :: pystr where
  "ua_hele = str ''Ua hele.''"

definition nani :: pystr where
  "nani = str ''Nani.''"

text \<open>The words \<^verbatim>\<open>ke\<close> and a noun that begins with the okina.\<close>

definition aina :: pystr where
  "aina = [okina] @ str ''aina''"

definition ke_aina :: pystr where
  "ke_aina = str ''ke '' @ aina"

section \<open>The English metrics (metrics/english_*.py)\<close>

text \<open>
  The regular expressions of these metrics are fixed in the source; what the engine
  finds for each of them is an argument of the model, one function for each expression,
  so that every statement below holds whatever the engine finds.
\<close>

subsection \<open>Articles a / an (english_articles.py)\<close>

text \<open>
  \<open>finditer_a_an text\<close> stands for the matches of the pattern for \<^verbatim>\<open>a\<close> or \<^verbatim>\<open>an\<close>
  followed by a word, each given as \<^verbatim>\<open>group(1)\<close>, \<^verbatim>\<open>group(2)\<close> and \<^verbatim>\<open>start()\<close>;
  \<open>match_silent_h\<close> and \<open>match_u_consonant\<close> tell whether the compiled prefix patterns
  match a word.
\<close>

record aan_regex =
  finditer_a_an :: "pystr \<Rightarrow> (pystr \<times> pystr \<times> nat) list"
  match_silent_h :: "pystr \<Rightarrow> bool"
  match_u_consonant :: "pystr \<Rightarrow> bool"

record ArticlesAAn =
  exceptions_use_a :: "pystr list"
  exceptions_use_an :: "pystr list"

definition vowel_sounds :: pystr where
  "vowel_sounds = str ''aeiouAEIOU''"

definition should_use_an :: "str_methods \<Rightarrow> aan_regex \<Rightarrow> ArticlesAAn \<Rightarrow> pystr \<Rightarrow> bool" where
  "should_use_an U re self word =
     (case word of
        [] \<Rightarrow> False
      | c # cs \<Rightarrow>
          (let word_lower = lower U word
           in if word_lower \<in> set (exceptions_use_an self) then True
              else if word_lower \<in> set (exceptions_use_a self) then False
              else if match_silent_h re word then True
              else if lower U [c] = str ''u'' \<and> match_u_consonant re word then False
              else c \<in> set vowel_sounds))"

text \<open>One match of the loop: the pair is (errors, checks).\<close>

definition aan_step ::
  "str_methods \<Rightarrow> aan_regex \<Rightarrow> ArticlesAAn \<Rightarrow> pystr \<times> pystr \<times> nat \<Rightarrow>
     json list \<times> json list \<Rightarrow> json list \<times> json list" where
  "aan_step U re self m acc =
     (case m of (group1, following_word, start) \<Rightarrow>
      case acc of (errors, checks) \<Rightarrow>
        (let article = lower U group1;
             check = JObject [(str ''article'', JString article),
                              (str ''word'', JString following_word),
                              (str ''position'', JInt (int start))];
             should_be_an = should_use_an U re self following_word
         in (if article = str ''a'' \<and> should_be_an then
               errors @ [JObject [(str ''found'', JString (str ''a '' @ following_word)),
                                  (str ''should_be'', JString (str ''an '' @ following_word)),
                                  (str ''position'', JInt (int start)),
                                  (str ''type'', JString (str ''a_should_be_an''))]]
             else if article = str ''an'' \<and> \<not> should_be_an then
               errors @ [JObject [(str ''found'', JString (str ''an '' @ following_word)),
                                  (str ''should_be'', JString (str ''a '' @ following_word)),
                                  (str ''position'', JInt (int start)),
                                  (str ''type'', JString (str ''an_should_be_a''))]]
             else errors,
             checks @ [check])))"

definition ArticlesAAn_score ::
  "str_methods \<Rightarrow> aan_regex \<Rightarrow> ArticlesAAn \<Rightarrow> pystr \<Rightarrow> pystr option \<Rightarrow> metric_result" where
  "ArticlesAAn_score U re self text src =
     (case fold (aan_step U re self) (finditer_a_an re text) ([], []) of
        (errors, checks) \<Rightarrow>
          (let score0 = 1 - real (length errors) / real (max (length checks) 1)
           in \<lparr> name = str ''articles_a_an'',
                version = str ''1.0'',
                score = max 0 score0,
                details = JObject [(str ''checked'', JInt (int (length checks))),
                                   (str ''errors'', JInt (int (length errors))),
                                   (str ''error_list'', JArray errors)] \<rparr>))"

subsection \<open>Spelling (english_spelling.py)\<close>

text \<open>
  \<open>findall_words text\<close> stands for \<^verbatim>\<open>re.findall\<close> of the word pattern, and the five
  searches for the patterns of \<^verbatim>\<open>_check_homophones\<close> on the lower-cased text.
\<close>

record spelling_regex =
  findall_words :: "pystr \<Rightarrow> pystr list"
  search_their_verb :: "pystr \<Rightarrow> bool"
  search_over_their :: "pystr \<Rightarrow> bool"
  search_over_their_plural :: "pystr \<Rightarrow> bool"
  search_your_ing :: "pystr \<Rightarrow> bool"
  search_its_aux :: "pystr \<Rightarrow> bool"

record SpellingChecker =
  error_to_correct :: "(pystr, pystr) dict"

definition double_letter_errors :: "(pystr, pystr) dict" where
  "double_letter_errors =
     [(str ''untill'', str ''until''), (str ''allways'', str ''always''),
      (str ''wellcome'', str ''welcome''), (str ''tommorrow'', str ''tomorrow''),
      (str ''dissappoint'', str ''disappoint''), (str ''occassion'', str ''occasion'')]"

text \<open>
  The constructor: the misspellings of the resource file with their keys in lower case,
  then the built-in doubled-letter list merged over them.
\<close>

definition SpellingChecker_init :: "str_methods \<Rightarrow> (pystr, pystr) dict \<Rightarrow> SpellingChecker" where
  "SpellingChecker_init U common_errors =
     \<lparr> error_to_correct =
         fold (\<lambda>(k, v) d. AList.update k v d) double_letter_errors
           (dict_comp (\<lambda>(e, c). lower U e) (\<lambda>(e, c). c) common_errors) \<rparr>"

definition apostrophe :: nat where
  "apostrophe = 39"

definition contractions :: "(pystr, pystr) dict" where
  "contractions =
     [(str ''dont'', str ''don'' @ [apostrophe] @ str ''t''),
      (str ''doesnt'', str ''doesn'' @ [apostrophe] @ str ''t''),
      (str ''didnt'', str ''didn'' @ [apostrophe] @ str ''t''),
      (str ''wont'', str ''won'' @ [apostrophe] @ str ''t''),
      (str ''cant'', str ''can'' @ [apostrophe] @ str ''t''),
      (str ''couldnt'', str ''couldn'' @ [apostrophe] @ str ''t''),
      (str ''shouldnt'', str ''shouldn'' @ [apostrophe] @ str ''t''),
      (str ''wouldnt'', str ''wouldn'' @ [apostrophe] @ str ''t''),
      (str ''isnt'', str ''isn'' @ [apostrophe] @ str ''t''),
      (str ''arent'', str ''aren'' @ [apostrophe] @ str ''t''),
      (str ''wasnt'', str ''wasn'' @ [apostrophe] @ str ''t''),
      (str ''werent'', str ''weren'' @ [apostrophe] @ str ''t''),
      (str ''hasnt'', str ''hasn'' @ [apostrophe] @ str ''t''),
      (str ''havent'', str ''haven'' @ [apostrophe] @ str ''t''),
      (str ''hadnt'', str ''hadn'' @ [apostrophe] @ str ''t'')]"

text \<open>\<^verbatim>\<open>_check_word_spelling\<close>: the error dictionary, or nothing.\<close>

definition check_word_spelling ::
  "str_methods \<Rightarrow> SpellingChecker \<Rightarrow> pystr \<Rightarrow> (pystr, json) dict option" where
  "check_word_spelling U self word =
     (let clean_word = strip_chars (str ''.,!?;:'' @ [34, apostrophe]) word;
          word_lower = lower U clean_word
      in case map_of (error_to_correct self) word_lower of
           Some correction \<Rightarrow>
             Some [(str ''misspelled'', JString clean_word),
                   (str ''correction'', JString correction),
                   (str ''type'', JString (str ''common_misspelling''))]
         | None \<Rightarrow>
             (case map_of contractions word_lower of
                Some correction \<Rightarrow>
                  Some [(str ''misspelled'', JString clean_word),
                        (str ''correction'', JString correction),
                        (str ''type'', JString (str ''missing_apostrophe''))]
              | None \<Rightarrow> None))"

text \<open>\<^verbatim>\<open>s.find(sub)\<close>: the index of the first occurrence, or -1.\<close>

fun find_from :: "int \<Rightarrow> pystr \<Rightarrow> pystr \<Rightarrow> int" where
  "find_from i [] sub = (if sub = [] then i else - 1)"
| "find_from i (c # cs) sub = (if startswith (c # cs) sub then i else find_from (i + 1) cs sub)"

definition str_find :: "pystr \<Rightarrow> pystr \<Rightarrow> int" where
  "str_find s sub = find_from 0 s sub"

definition homophone_warning :: "pystr \<Rightarrow> pystr \<Rightarrow> pystr \<Rightarrow> json" where
  "homophone_warning found ctx suggestion =
     JObject [(str ''found'', JString found),
              (str ''context'', JString ctx),
              (str ''suggestion'', JString suggestion),
              (str ''type'', JString (str ''homophone_warning''))]"

definition check_homophones :: "str_methods \<Rightarrow> spelling_regex \<Rightarrow> pystr \<Rightarrow> json list" where
  "check_homophones U re text =
     (let text_lower = lower U text;
          w1 = (if contains text_lower (str ''their'') \<or> contains text_lower (str ''there'')
                   \<or> contains text_lower (str ''they'' @ [apostrophe] @ str ''re'')
                   \<or> contains text_lower (str ''theyre'')
                then (if search_their_verb re text_lower
                      then [homophone_warning (str ''their'') (str ''before a verb'')
                              (str ''they'' @ [apostrophe] @ str ''re (they are)'')]
                      else []) @
                     (if search_over_their re text_lower \<and> \<not> search_over_their_plural re text_lower
                      then [homophone_warning (str ''their'') (str ''after '' @ [34] @ str ''over'' @ [34])
                              (str ''there'')]
                      else [])
                else []);
          w2 = (if search_your_ing re text_lower
                then [homophone_warning (str ''your'') (str ''before verb+ing'')
                        (str ''you'' @ [apostrophe] @ str ''re (you are)'')]
                else []);
          w3 = (if search_its_aux re text_lower
                then [homophone_warning (str ''its'') (str ''before auxiliary/verb'')
                        (str ''it'' @ [apostrophe] @ str ''s (it is/has)'')]
                else [])
      in w1 @ w2 @ w3)"

text \<open>One word of the loop: the pair is (errors, words_checked).\<close>

definition spelling_step ::
  "str_methods \<Rightarrow> SpellingChecker \<Rightarrow> pystr \<Rightarrow> pystr \<Rightarrow> json list \<times> nat \<Rightarrow> json list \<times> nat" where
  "spelling_step U self text word acc =
     (case acc of (errors, words_checked) \<Rightarrow>
        (case check_word_spelling U self word of
           None \<Rightarrow> (errors, words_checked + 1)
         | Some error \<Rightarrow>
             (errors @ [JObject (AList.update (str ''position'') (JInt (str_find text word)) error)],
              words_checked + 1)))"

definition SpellingChecker_score ::
  "str_methods \<Rightarrow> spelling_regex \<Rightarrow> SpellingChecker \<Rightarrow> pystr \<Rightarrow> pystr option \<Rightarrow> metric_result" where
  "SpellingChecker_score U re self text src =
     (case fold (spelling_step U self text) (findall_words re text) ([], 0) of
        (errors, words_checked) \<Rightarrow>
          (let warnings = check_homophones U re text;
               score0 = 1 - real (length errors) / real (max words_checked 1)
           in \<lparr> name = str ''spelling'',
                version = str ''1.0'',
                score = max 0 score0,
                details = JObject [(str ''words_checked'', JInt (int words_checked)),
                                   (str ''errors_found'', JInt (int (length errors))),
                                   (str ''errors'', JArray (take 10 errors)),
                                   (str ''warnings'', JArray (take 5 warnings))] \<rparr>))"

subsection \<open>Subject-verb agreement (english_subject_verb.py)\<close>

text \<open>
  \<open>split_sentences s\<close> stands for \<^verbatim>\<open>re.split\<close> on the runs of sentence-ending
  punctuation, and \<open>finditer_groups i sent\<close> for the \<^verbatim>\<open>groups()\<close> of the matches of the
  \<open>i\<close>-th of the four subject-verb patterns in a sentence, from left to right.
\<close>

record subject_verb_regex =
  split_sentences :: "pystr \<Rightarrow> pystr list"
  finditer_groups :: "nat \<Rightarrow> pystr \<Rightarrow> pystr list list"

datatype subject_type = first_person_singular | second_person | singular | plural

definition singular_subjects :: "pystr list" where
  "singular_subjects =
     [str ''he'', str ''she'', str ''it'', str ''this'', str ''that'', str ''everyone'',
      str ''everybody'', str ''someone'', str ''somebody'', str ''anyone'', str ''anybody'',
      str ''no one'', str ''nobody'', str ''each'', str ''either'', str ''neither'',
      str ''one'', str ''every'', str ''a'', str ''an'']"

definition plural_subjects :: "pystr list" where
  "plural_subjects =
     [str ''they'', str ''we'', str ''these'', str ''those'', str ''many'', str ''few'',
      str ''several'', str ''both'', str ''all'', str ''some'', str ''most'']"

definition identify_subject_type :: "str_methods \<Rightarrow> pystr \<Rightarrow> subject_type" where
  "identify_subject_type U subject =
     (let subject_lower = py_strip (lower U subject)
      in if subject_lower = str ''i'' then first_person_singular
         else if subject_lower = str ''you'' then second_person
         else if subject_lower \<in> set singular_subjects then singular
         else if subject_lower \<in> set plural_subjects then plural
         else if endswith subject_lower (str ''s'') \<and> \<not> endswith subject_lower (str ''ss'')
           then plural
         else if contains subject_lower (str '' and '') then plural
         else singular)"

definition add_s_to_verb :: "pystr \<Rightarrow> pystr" where
  "add_s_to_verb verb =
     (if endswith verb (str ''y'') \<and> length verb > 1 \<and>
         verb ! (length verb - 2) \<notin> set (str ''aeiou'')
      then butlast verb @ str ''ies''
      else if endswith verb (str ''s'') \<or> endswith verb (str ''x'') \<or> endswith verb (str ''z'')
              \<or> endswith verb (str ''ch'') \<or> endswith verb (str ''sh'')
      then verb @ str ''es''
      else verb @ str ''s'')"

definition agreement_error :: "pystr \<Rightarrow> pystr \<Rightarrow> pystr \<Rightarrow> pystr \<Rightarrow> (pystr, json) dict" where
  "agreement_error kind subject verb suggestion =
     [(str ''error'', JString kind),
      (str ''subject'', JString subject),
      (str ''verb'', JString verb),
      (str ''suggestion'', JString suggestion)]"

definition third_person :: "pystr list" where
  "third_person = [str ''he'', str ''she'', str ''it'']"

text \<open>\<^verbatim>\<open>_check_verb_agreement\<close>: the chain of tests of the source, in its order.\<close>

definition check_verb_agreement ::
  "str_methods \<Rightarrow> pystr \<Rightarrow> pystr \<Rightarrow> (pystr, json) dict option" where
  "check_verb_agreement U subject verb =
     (let subject_kind = identify_subject_type U subject;
          verb_lower = lower U verb
      in if verb_lower \<in> set [str ''is'', str ''was'', str ''are'', str ''were'', str ''am''] then
           (if subject_kind = singular \<and> verb_lower \<in> set [str ''are'', str ''were''] then
              Some (agreement_error (str ''singular_subject_plural_verb'') subject verb
                      (if verb_lower = str ''are'' then str ''is'' else str ''was''))
            else if subject_kind = plural \<and> verb_lower \<in> set [str ''is'', str ''was''] then
              Some (agreement_error (str ''plural_subject_singular_verb'') subject verb
                      (if verb_lower = str ''is'' then str ''are'' else str ''were''))
            else if subject_kind = first_person_singular \<and>
                    verb_lower \<notin> set [str ''am'', str ''was''] then
              Some (agreement_error (str ''first_person_wrong_verb'') subject verb
                      (if verb_lower \<in> set [str ''is'', str ''are''] then str ''am''
                       else str ''was''))
            else None)
         else if verb_lower \<in> set [str ''has'', str ''have''] then
           (if subject_kind \<in> set [singular, first_person_singular] \<and> verb_lower = str ''have''
            then
              (if lower U subject \<in> set third_person then
                 Some (agreement_error (str ''third_person_singular_have'') subject verb
                         (str ''has''))
               else None)
            else if subject_kind = plural \<and> verb_lower = str ''has'' then
              Some (agreement_error (str ''plural_subject_has'') subject verb (str ''have''))
            else None)
         else if verb_lower \<in> set [str ''does'', str ''do''] then
           (if subject_kind = plural \<and> verb_lower = str ''does'' then
              Some (agreement_error (str ''plural_subject_does'') subject verb (str ''do''))
            else if subject_kind = singular \<and> lower U subject \<in> set third_person \<and>
                    verb_lower = str ''do'' then
              Some (agreement_error (str ''third_person_singular_do'') subject verb
                      (str ''does''))
            else None)
         else if subject_kind = plural \<and> endswith verb_lower (str ''s'') \<and>
                 \<not> endswith verb_lower (str ''ss'') then
           Some (agreement_error (str ''plural_subject_s_verb'') subject verb
                   (if endswith verb (str ''s'') then butlast verb else verb))
         else if subject_kind = singular \<and> lower U subject \<in> set third_person then
           (if \<not> endswith verb_lower (str ''s'') \<and>
               verb_lower \<notin> set [str ''was'', str ''is'', str ''has'', str ''does'', str ''can'',
                                 str ''will'', str ''would'', str ''could'', str ''should'',
                                 str ''may'', str ''might''] then
              Some (agreement_error (str ''third_person_singular_missing_s'') subject verb
                      (add_s_to_verb verb))
            else None)
         else None)"

text \<open>
  The subject and the verb of a match: two groups are the pair itself, three groups
  give the first two joined by a space and the third (both branches of the source do
  the same); any other number of groups is skipped.
\<close>

definition subject_and_verb :: "pystr list \<Rightarrow> (pystr \<times> pystr) option" where
  "subject_and_verb groups =
     (case groups of
        [subject, verb] \<Rightarrow> Some (subject, verb)
      | [g0, g1, g2] \<Rightarrow> Some (g0 @ str '' '' @ g1, g2)
      | _ \<Rightarrow> None)"

definition not_verbs :: "pystr list" where
  "not_verbs =
     [str ''the'', str ''a'', str ''an'', str ''and'', str ''or'', str ''but'', str ''with'',
      str ''to'', str ''for'', str ''in'', str ''on'', str ''at'']"

text \<open>
  The loop over the matches of one pattern: matches are skipped until one yields a
  verb that is not in the list above; that one is checked, and the loop is left.
\<close>

fun first_pair :: "str_methods \<Rightarrow> pystr list list \<Rightarrow> (pystr \<times> pystr) option" where
  "first_pair U [] = None"
| "first_pair U (groups # ms) =
     (case subject_and_verb groups of
        None \<Rightarrow> first_pair U ms
      | Some (subject, verb) \<Rightarrow>
          (if lower U verb \<in> set not_verbs then first_pair U ms else Some (subject, verb)))"

text \<open>One pattern on one sentence: the pair is (errors, checks).\<close>

definition pattern_step ::
  "str_methods \<Rightarrow> subject_verb_regex \<Rightarrow> pystr \<Rightarrow> nat \<Rightarrow> json list \<times> json list \<Rightarrow>
     json list \<times> json list" where
  "pattern_step U re sent i acc =
     (case acc of (errors, checks) \<Rightarrow>
        (case first_pair U (finditer_groups re i sent) of
           None \<Rightarrow> (errors, checks)
         | Some (subject, verb) \<Rightarrow>
             (let sentence = (if length sent > 50 then take 50 sent @ str ''...'' else sent);
                  check = JObject [(str ''subject'', JString subject),
                                   (str ''verb'', JString verb),
                                   (str ''sentence'', JString sentence)]
              in (case check_verb_agreement U subject verb of
                    None \<Rightarrow> errors
                  | Some error \<Rightarrow>
                      errors @ [JObject (AList.update (str ''sentence'') (JString sentence) error)],
                  checks @ [check]))))"

definition sentence_step ::
  "str_methods \<Rightarrow> subject_verb_regex \<Rightarrow> pystr \<Rightarrow> json list \<times> json list \<Rightarrow>
     json list \<times> json list" where
  "sentence_step U re sent0 acc =
     (let sent = py_strip sent0
      in if sent = [] then acc else fold (pattern_step U re sent) [0, 1, 2, 3] acc)"

definition SubjectVerbAgreement_score ::
  "str_methods \<Rightarrow> subject_verb_regex \<Rightarrow> pystr \<Rightarrow> pystr option \<Rightarrow> metric_result" where
  "SubjectVerbAgreement_score U re text src =
     (case fold (sentence_step U re) (split_sentences re (py_strip text)) ([], []) of
        (errors, checks) \<Rightarrow>
          (let score0 = 1 - real (length errors) / real (max (length checks) 1)
           in \<lparr> name = str ''subject_verb_agreement'',
                version = str ''1.0'',
                score = max 0 score0,
                details = JObject [(str ''checks_performed'', JInt (int (length checks))),
                                   (str ''errors_found'', JInt (int (length errors))),
                                   (str ''errors'', JArray (take 5 errors))] \<rparr>))"

subsection \<open>Punctuation (english_punctuation.py)\<close>

text \<open>
  What the engine finds for the expressions of the punctuation metric. A match of two
  or more sentence-ending marks is given as its first character and the rest, with its
  start; \<open>split_after_end\<close> is the split at white space after a sentence-ending mark;
  the other matches are given by their text and start, or by start and end.
\<close>

record punctuation_regex =
  finditer_multi_punct :: "pystr \<Rightarrow> ((nat \<times> pystr) \<times> nat) list"
  split_after_end :: "pystr \<Rightarrow> pystr list"
  finditer_inner_capital :: "pystr \<Rightarrow> (pystr \<times> nat) list"
  finditer_comma_no_space :: "pystr \<Rightarrow> (nat \<times> nat) list"
  finditer_space_comma :: "pystr \<Rightarrow> nat list"
  finditer_double_comma :: "pystr \<Rightarrow> (pystr \<times> nat) list"
  split_sentence_ends :: "pystr \<Rightarrow> pystr list"

definition sentence_endings :: pystr where
  "sentence_endings = str ''.!?''"

definition common_abbreviations :: "pystr list" where
  "common_abbreviations =
     [str ''mr'', str ''mrs'', str ''ms'', str ''dr'', str ''prof'', str ''sr'', str ''jr'',
      str ''vs'', str ''etc'', str ''inc'', str ''ltd'', str ''corp'',
      str ''jan'', str ''feb'', str ''mar'', str ''apr'', str ''jun'', str ''jul'', str ''aug'',
      str ''sep'', str ''sept'', str ''oct'', str ''nov'', str ''dec'',
      str ''mon'', str ''tue'', str ''wed'', str ''thu'', str ''fri'', str ''sat'', str ''sun'',
      str ''st'', str ''nd'', str ''rd'', str ''th'']"

text \<open>\<^verbatim>\<open>s[a:b]\<close> for indices that are not negative.\<close>

definition slice :: "nat \<Rightarrow> nat \<Rightarrow> pystr \<Rightarrow> pystr" where
  "slice a b s = take (b - a) (drop a s)"

definition check_sentence_punctuation :: "punctuation_regex \<Rightarrow> pystr \<Rightarrow> json list" where
  "check_sentence_punctuation re text =
     (let text_stripped = py_strip text;
          e1 = (if text_stripped \<noteq> [] \<and> last text_stripped \<notin> set sentence_endings
                then [JObject [(str ''type'', JString (str ''missing_end_punctuation'')),
                               (str ''position'', JInt (int (length text_stripped))),
                               (str ''suggestion'',
                                JString (str ''Add period, question mark, or exclamation point''))]]
                else []);
          e2 = (if endswith text_stripped [34, 46] \<or> endswith text_stripped [39, 46]
                then [JObject [(str ''type'', JString (str ''incorrect_quote_punctuation'')),
                               (str ''position'', JInt (int (length text_stripped) - 2)),
                               (str ''found'',
                                JString (drop (length text_stripped - 2) text_stripped)),
                               (str ''suggestion'',
                                JString (str ''Move period inside quotes: .'' @ [34]))]]
                else []);
          e3 = concat (map (\<lambda>((c, rest), start).
                              if c # rest \<notin> set [str ''?!'', str ''!?'', str ''...'']
                              then [JObject [(str ''type'', JString (str ''multiple_punctuation'')),
                                             (str ''found'', JString (c # rest)),
                                             (str ''position'', JInt (int start)),
                                             (str ''suggestion'', JString [c])]]
                              else [])
                           (finditer_multi_punct re text))
      in e1 @ e2 @ e3)"

text \<open>
  \<^verbatim>\<open>prev_sent.split()[-1].rstrip('.').lower() if prev_sent else ''\<close>: indexing the
  list of words raises on an empty list.
\<close>

definition last_word :: "str_methods \<Rightarrow> pystr \<Rightarrow> error + pystr" where
  "last_word U prev_sent =
     (if prev_sent = [] then Inr []
      else (case py_split prev_sent of
              [] \<Rightarrow> Inl IndexError
            | w # ws \<Rightarrow> Inr (lower U (rstrip_chars (str ''.'') (last (w # ws))))))"

text \<open>
  The loop over the sentences with the sentence before (none for the first) and the
  running position.
\<close>

fun capital_loop ::
  "str_methods \<Rightarrow> pystr option \<Rightarrow> nat \<Rightarrow> pystr list \<Rightarrow> error + json list" where
  "capital_loop U prev position [] = Inr []"
| "capital_loop U prev position (sent # rest) =
     (let sent_stripped = py_strip sent;
          here =
            (case prev of
               None \<Rightarrow> Inr []
             | Some p \<Rightarrow>
                 (case sent_stripped of
                    [] \<Rightarrow> Inr []
                  | c # cs \<Rightarrow>
                      (case last_word U (py_strip p) of
                         Inl e \<Rightarrow> Inl e
                       | Inr lw \<Rightarrow>
                           Inr (if lw \<notin> set common_abbreviations \<and> islower U [c]
                                then [JObject
                                        [(str ''type'', JString (str ''missing_capital_after_period'')),
                                         (str ''position'', JInt (int position)),
                                         (str ''sentence'',
                                          JString (if length sent_stripped > 30
                                                   then take 30 sent_stripped @ str ''...''
                                                   else sent_stripped)),
                                         (str ''suggestion'',
                                          JString (str ''Capitalize first letter of sentence''))]]
                                else []))))
      in case here of
           Inl e \<Rightarrow> Inl e
         | Inr es \<Rightarrow>
             (case capital_loop U (Some sent) (position + length sent + 1) rest of
                Inl e \<Rightarrow> Inl e
              | Inr es' \<Rightarrow> Inr (es @ es')))"

definition check_capitalization ::
  "str_methods \<Rightarrow> punctuation_regex \<Rightarrow> pystr \<Rightarrow> error + json list" where
  "check_capitalization U re text =
     (let e1 = (case py_strip text of
                  [] \<Rightarrow> []
                | c # cs \<Rightarrow>
                    (if islower U [c]
                     then [JObject [(str ''type'', JString (str ''missing_capital_start'')),
                                    (str ''position'', JInt 0),
                                    (str ''suggestion'', JString (str ''Capitalize first letter''))]]
                     else []))
      in case capital_loop U None 0 (split_after_end re text) of
           Inl e \<Rightarrow> Inl e
         | Inr e2 \<Rightarrow>
             Inr (e1 @ e2 @
                  concat (map (\<lambda>(word, start).
                                 if \<not> (startswith word (str ''i'') \<or> startswith word (str ''e''))
                                    \<or> length word < 4
                                 then [JObject [(str ''type'', JString (str ''unexpected_capital'')),
                                                (str ''word'', JString word),
                                                (str ''position'', JInt (int start)),
                                                (str ''suggestion'', JString (lower U word))]]
                                 else [])
                              (finditer_inner_capital re text))))"

definition check_comma_usage :: "str_methods \<Rightarrow> punctuation_regex \<Rightarrow> pystr \<Rightarrow> json list" where
  "check_comma_usage U re text =
     concat (map (\<lambda>(start, end).
                    (let next_char = (if end < length text then [text ! end] else [])
                     in if next_char \<noteq> [] \<and> isalnum U next_char
                        then [JObject [(str ''type'', JString (str ''missing_space_after_comma'')),
                                       (str ''position'', JInt (int start)),
                                       (str ''context'',
                                        JString (slice (start - 10) (end + 10) text))]]
                        else []))
                 (finditer_comma_no_space re text))
     @ map (\<lambda>start. JObject [(str ''type'', JString (str ''space_before_comma'')),
                              (str ''position'', JInt (int start)),
                              (str ''suggestion'', JString (str ''Remove space before comma''))])
           (finditer_space_comma re text)
     @ map (\<lambda>(found, start). JObject [(str ''type'', JString (str ''double_comma'')),
                                       (str ''position'', JInt (int start)),
                                       (str ''found'', JString found),
                                       (str ''suggestion'', JString (str '',''))])
           (finditer_double_comma re text)"

definition PunctuationChecker_score ::
  "str_methods \<Rightarrow> punctuation_regex \<Rightarrow> pystr \<Rightarrow> pystr option \<Rightarrow> error + metric_result" where
  "PunctuationChecker_score U re text src =
     (let sentence_errors = check_sentence_punctuation re text
      in case check_capitalization U re text of
           Inl e \<Rightarrow> Inl e
         | Inr capital_errors \<Rightarrow>
             (let comma_errors = check_comma_usage U re text;
                  all_errors = sentence_errors @ capital_errors @ comma_errors;
                  sentences = length (split_sentence_ends re (py_strip text));
                  commas = count_list text 44;
                  total_checks = sentences * 2 + commas + 1;
                  score0 = 1 - real (length all_errors) / real (max total_checks 1)
              in Inr \<lparr> name = str ''punctuation'',
                       version = str ''1.0'',
                       score = max 0 score0,
                       details =
                         JObject [(str ''total_errors'', JInt (int (length all_errors))),
                                  (str ''sentence_errors'', JInt (int (length sentence_errors))),
                                  (str ''capitalization_errors'',
                                   JInt (int (length capital_errors))),
                                  (str ''comma_errors'', JInt (int (length comma_errors))),
                                  (str ''errors'', JArray (take 10 all_errors))] \<rparr>))"

text \<open>Engines that find nothing, for the evaluation of the metrics on an empty text.\<close>

definition no_aan :: aan_regex where
  "no_aan = \<lparr> finditer_a_an = (\<lambda>t. []), match_silent_h = (\<lambda>w. False),
              match_u_consonant = (\<lambda>w. False) \<rparr>"

definition no_spelling :: spelling_regex where
  "no_spelling = \<lparr> findall_words = (\<lambda>t. []), search_their_verb = (\<lambda>t. False),
                   search_over_their = (\<lambda>t. False), search_over_their_plural = (\<lambda>t. False),
                   search_your_ing = (\<lambda>t. False), search_its_aux = (\<lambda>t. False) \<rparr>"

definition no_subject_verb :: subject_verb_regex where
  "no_subject_verb = \<lparr> split_sentences = (\<lambda>t. [t]), finditer_groups = (\<lambda>i t. []) \<rparr>"

definition no_punctuation :: punctuation_regex where
  "no_punctuation =
     \<lparr> finditer_multi_punct = (\<lambda>t. []), split_after_end = (\<lambda>t. [t]),
       finditer_inner_capital = (\<lambda>t. []), finditer_comma_no_space = (\<lambda>t. []),
       finditer_space_comma = (\<lambda>t. []), finditer_double_comma = (\<lambda>t. []),
       split_sentence_ends = (\<lambda>t. [t]) \<rparr>"

text \<open>
  The lexicon entry and the two texts of the diacritics scenarios: the required form
  with macron and okina, a text that has it and a text that lacks the diacritics.
\<close>

definition hoike :: pystr where
  "hoike = str ''h'' @ [0x14D, okina] @ str ''ike''"

definition ua_pau_ka_hoike :: pystr where
  "ua_pau_ka_hoike = str ''Ua pau ka '' @ hoike @ str ''.''"

definition ua_pau_ka_hoike_plain :: pystr where
  "ua_pau_ka_hoike_plain = str ''Ua pau ka hoike.''"

section \<open>Properties of the floating-point arithmetic\<close>

lemma round_half_even_error: "\<bar>of_int (round_half_even x) - x\<bar> \<le> 1 / 2"
  unfolding round_half_even_def Let_def by (auto simp: abs_if) linarith+

lemma round_half_even_of_int: "round_half_even (of_int z) = z"
  by (simp add: round_half_even_def)

lemma find_upto_Some:
  assumes "find P [lo..hi] = Some e"
  shows "lo \<le> e" "e \<le> hi" "P e" "\<And>e'. lo \<le> e' \<Longrightarrow> e' < e \<Longrightarrow> \<not> P e'"
proof -
  from assms obtain i where i: "i < length [lo..hi]" "P ([lo..hi] ! i)" "e = [lo..hi] ! i"
    "\<forall>j<i. \<not> P ([lo..hi] ! j)"
    unfolding find_Some_iff by blast
  have n: "[lo..hi] ! j = lo + int j" if "j \<le> i" for j
    using that i(1) by (intro nth_upto) (simp add: length_upto)
  have e: "e = lo + int i" using i(3) n [of i] by simp
  show "lo \<le> e" using e by simp
  show "e \<le> hi" using e i(1) by (simp add: length_upto)
  show "P e" using i(2,3) by simp
  show "\<not> P e'" if "lo \<le> e'" "e' < e" for e'
  proof -
    let ?j = "nat (e' - lo)"
    have j: "?j < i" using that e by simp
    then have "\<not> P ([lo..hi] ! ?j)" using i(4) by blast
    moreover have "[lo..hi] ! ?j = e'" using n [of ?j] j that(1) by simp
    ultimately show ?thesis by simp
  qed
qed

lemma find_upto_eq:
  assumes "lo \<le> e" "e \<le> hi" "P e" "\<And>e'. lo \<le> e' \<Longrightarrow> e' < e \<Longrightarrow> \<not> P e'"
  shows "find P [lo..hi] = Some e"
proof -
  have "e \<in> set [lo..hi]" using assms(1,2) by simp
  with assms(3) have "find P [lo..hi] \<noteq> None" unfolding find_None_iff by blast
  then obtain e' where e': "find P [lo..hi] = Some e'" by auto
  note s = find_upto_Some [OF e']
  have "\<not> e' < e" using assms(4) [OF s(1)] s(3) by blast
  moreover have "\<not> e < e'" using s(4) [OF assms(1)] assms(3) by blast
  ultimately show ?thesis using e' by simp
qed

lemma ulp_exponent_Some:
  assumes "ulp_exponent x = Some e"
  shows "- 1074 \<le> e" "e \<le> 971" "\<bar>x\<bar> < 2 powi (e + 53)"
    "e = - 1074 \<or> 2 powi (e + 52) \<le> \<bar>x\<bar>"
proof -
  note s = find_upto_Some [OF assms [unfolded ulp_exponent_def]]
  show "- 1074 \<le> e" "e \<le> 971" "\<bar>x\<bar> < 2 powi (e + 53)" by (rule s)+
  show "e = - 1074 \<or> 2 powi (e + 52) \<le> \<bar>x\<bar>"
  proof (cases "e = - 1074")
    case False
    then have "\<not> \<bar>x\<bar> < 2 powi (e - 1 + 53)" using s(1) by (intro s(4)) simp_all
    moreover have "e - 1 + 53 = e + 52" by simp
    ultimately have "2 powi (e + 52) \<le> \<bar>x\<bar>" by (simp only: not_less)
    then show ?thesis ..
  qed simp
qed

lemma ulp_exponent_eq:
  assumes "- 1074 \<le> e" "e \<le> 971" "\<bar>x\<bar> < 2 powi (e + 53)"
    "e = - 1074 \<or> 2 powi (e + 52) \<le> \<bar>x\<bar>"
  shows "ulp_exponent x = Some e"
  unfolding ulp_exponent_def
proof (rule find_upto_eq [where P = "\<lambda>e. \<bar>x\<bar> < 2 powi (e + 53)", OF assms(1,2,3)])
  fix e' :: int
  assume e': "- 1074 \<le> e'" "e' < e"
  then have "e' + 53 \<le> e + 52" by simp
  then have "(2::real) powi (e' + 53) \<le> 2 powi (e + 52)"
    by (intro power_int_increasing) simp_all
  moreover have "e \<noteq> - 1074" using e' by simp
  ultimately show "\<not> \<bar>x\<bar> < 2 powi (e' + 53)" using assms(4) by simp
qed

lemma find_upto_le:
  assumes "lo \<le> e" "e \<le> hi" "P e"
  shows "\<exists>e'. find P [lo..hi] = Some e' \<and> lo \<le> e' \<and> e' \<le> e"
proof -
  have "e \<in> set [lo..hi]" using assms(1,2) by simp
  with assms(3) have "find P [lo..hi] \<noteq> None" unfolding find_None_iff by blast
  then obtain e' where e': "find P [lo..hi] = Some e'" by auto
  note s = find_upto_Some [OF e']
  have "\<not> e < e'" using s(4) [OF assms(1)] assms(3) by blast
  then show ?thesis using e' s(1) by auto
qed

lemma ulp_exponent_le:
  assumes "- 1074 \<le> e" "e \<le> 971" "\<bar>x\<bar> < 2 powi (e + 53)"
  shows "\<exists>e'. ulp_exponent x = Some e' \<and> - 1074 \<le> e' \<and> e' \<le> e"
  unfolding ulp_exponent_def
  by (rule find_upto_le [where P = "\<lambda>e. \<bar>x\<bar> < 2 powi (e + 53)", OF assms])

text \<open>
  The rounding error is at most half a unit in the last place: a relative error of at
  most \<open>1 / 2 ^ 53\<close> for the normal numbers and an absolute error of at most
  \<open>1 / 2 ^ 1075\<close> for the subnormal ones.
\<close>

lemma round_to_double_error:
  "\<bar>round_to_double x - x\<bar> \<le> \<bar>x\<bar> / 2 ^ 53 + 1 / 2 ^ 1075"
proof (cases "ulp_exponent x")
  case None
  then show ?thesis by (simp add: round_to_double_def)
next
  case (Some e)
  note s = ulp_exponent_Some [OF Some]
  let ?p = "(2::real) powi e"
  have p: "0 < ?p" by (simp add: power_int_def)
  have "round_to_double x - x = (of_int (round_half_even (x / ?p)) - x / ?p) * ?p"
    using p by (simp add: round_to_double_def Some field_simps)
  then have "\<bar>round_to_double x - x\<bar> = \<bar>of_int (round_half_even (x / ?p)) - x / ?p\<bar> * ?p"
    using p by (simp add: abs_mult)
  also have "\<dots> \<le> 1 / 2 * ?p"
    using p round_half_even_error [of "x / ?p"] by (intro mult_right_mono) simp_all
  finally have half: "\<bar>round_to_double x - x\<bar> \<le> ?p / 2" by simp
  from s(4) show ?thesis
  proof
    assume "e = - 1074"
    then have "?p / 2 = 1 / 2 ^ 1075"
      by (simp add: power_int_minus_divide)
    with half have "\<bar>round_to_double x - x\<bar> \<le> 1 / 2 ^ 1075" by simp
    moreover have "0 \<le> \<bar>x\<bar> / 2 ^ 53" by simp
    ultimately show ?thesis by linarith
  next
    assume le: "2 powi (e + 52) \<le> \<bar>x\<bar>"
    have "(2::real) powi (e + 52) = ?p * 2 ^ 52"
      by (simp add: power_int_add)
    then have "?p / 2 = 2 powi (e + 52) / 2 ^ 53" by simp
    also have "\<dots> \<le> \<bar>x\<bar> / 2 ^ 53" using le by (intro divide_right_mono) simp_all
    finally have "?p / 2 \<le> \<bar>x\<bar> / 2 ^ 53" .
    moreover have "(0::real) \<le> 1 / 2 ^ 1075" by simp
    ultimately show ?thesis using half by linarith
  qed
qed

text \<open>A number that is a double is rounded to itself.\<close>

lemma round_to_double_exact:
  assumes "\<bar>m\<bar> < 2 ^ 53" "- 1074 \<le> e" "e \<le> 971"
  shows "round_to_double (of_int m * 2 powi e) = of_int m * 2 powi e"
proof -
  let ?x = "of_int m * (2::real) powi e"
  have pe: "0 < (2::real) powi e" by (simp add: power_int_def)
  have "\<bar>?x\<bar> = \<bar>of_int m\<bar> * 2 powi e" using pe by (simp add: abs_mult)
  also have "\<dots> < 2 ^ 53 * 2 powi e"
  proof -
    have "\<bar>of_int m :: real\<bar> < 2 ^ 53" using assms(1) by (metis of_int_abs of_int_less_numeral_power_cancel_iff)
    then show ?thesis using pe by (intro mult_strict_right_mono)
  qed
  also have "\<dots> = 2 powi (e + 53)" by (simp add: power_int_add)
  finally have lt: "\<bar>?x\<bar> < 2 powi (e + 53)" .
  from ulp_exponent_le [OF assms(2,3) lt] obtain e' where
    e': "ulp_exponent ?x = Some e'" "- 1074 \<le> e'" "e' \<le> e" by blast
  have "(2::real) powi e = 2 powi (e' + int (nat (e - e')))" using e'(3) by simp
  also have "\<dots> = 2 powi e' * 2 ^ nat (e - e')"
    by (simp only: power_int_add [of "2::real", simplified] power_int_of_nat)
  finally have split: "(2::real) powi e = 2 powi e' * 2 ^ nat (e - e')" .
  have pe': "(2::real) powi e' \<noteq> 0" by simp
  have "?x / 2 powi e' = of_int m * 2 ^ nat (e - e')"
    unfolding split using pe' by simp
  also have "\<dots> = of_int (m * 2 ^ nat (e - e'))" by simp
  finally have q: "?x / 2 powi e' = of_int (m * 2 ^ nat (e - e'))" .
  have "round_to_double ?x = of_int (round_half_even (?x / 2 powi e')) * 2 powi e'"
    by (simp add: round_to_double_def e'(1))
  also have "\<dots> = of_int (m * 2 ^ nat (e - e')) * 2 powi e'"
    unfolding q round_half_even_of_int ..
  also have "\<dots> = ?x" unfolding split by simp
  finally show ?thesis .
qed

lemma round_to_double_of_int:
  "\<bar>m\<bar> < 2 ^ 53 \<Longrightarrow> round_to_double (of_int m) = of_int m"
  using round_to_double_exact [of m 0] by simp


lemma round_to_double_eval:
  "ulp_exponent x = Some e \<Longrightarrow>
     round_to_double x = of_int (round_half_even (x / 2 powi e)) * 2 powi e"
  by (simp add: round_to_double_def)

lemma double_values:
  "round_to_double 0 = 0"
  "round_to_double 1 = 1"
  "round_to_double 2 = 2"
  "round_to_double (- 1) = - 1"
  "round_to_double (1 / 2) = 1 / 2"
  "round_to_double (- (1 / 2)) = - (1 / 2)"
  using round_to_double_of_int [of 0] round_to_double_of_int [of 1]
    round_to_double_of_int [of 2] round_to_double_of_int [of "- 1"]
    round_to_double_exact [of 1 "- 1"] round_to_double_exact [of "- 1" "- 1"]
  by simp_all

text \<open>
  One step of the incremental mean under a rounding function with relative error \<open>u\<close>
  and absolute error \<open>\<eta>\<close>.
\<close>

lemma incremental_step_error:
  fixes rnd :: "real \<Rightarrow> real" and u \<eta> r v m k :: real
  assumes rnd: "\<And>x. \<bar>rnd x - x\<bar> \<le> \<bar>x\<bar> * u + \<eta>"
    and u: "0 \<le> u" "u \<le> 1 / 1000" and \<eta>: "0 \<le> \<eta>" "\<eta> \<le> u / 100"
    and r: "\<bar>r\<bar> \<le> 1" and v: "\<bar>v\<bar> \<le> 1 + 1 / 1000" and k: "1 \<le> k"
  shows "\<bar>rnd (v + rnd (rnd (r - v) / k)) - (m + (r - m) / k)\<bar> \<le> (1 - 1 / k) * \<bar>v - m\<bar> + 6 * u"
proof -
  define a where "a = r - v"
  define d where "d = rnd a"
  define x where "x = d / k"
  define q where "q = rnd x"
  define s where "s = v + q"
  define c where "c = 1 / k"
  have c: "0 \<le> c" "c \<le> 1" using k by (simp_all add: c_def)
  have a_le: "\<bar>a\<bar> \<le> 2001 / 1000" using r v unfolding a_def by linarith
  have "\<bar>a\<bar> * u \<le> 2001 / 1000 * u" using a_le u(1) by (rule mult_right_mono)
  with rnd [of a] \<eta>(2) have da: "\<bar>d - a\<bar> \<le> 2011 / 1000 * u" unfolding d_def by linarith
  have d_le: "\<bar>d\<bar> \<le> 2004 / 1000" using da a_le u(2) by linarith
  have "\<bar>x\<bar> = \<bar>d\<bar> * c" using k by (simp add: x_def c_def)
  also have "\<dots> \<le> \<bar>d\<bar> * 1" using c by (intro mult_left_mono) simp_all
  finally have x_le: "\<bar>x\<bar> \<le> 2004 / 1000" using d_le by simp
  have "\<bar>x\<bar> * u \<le> 2004 / 1000 * u" using x_le u(1) by (rule mult_right_mono)
  with rnd [of x] \<eta>(2) have qx: "\<bar>q - x\<bar> \<le> 2014 / 1000 * u" unfolding q_def by linarith
  have "\<bar>(d - a) * c\<bar> = \<bar>d - a\<bar> * c" using c by (simp add: abs_mult)
  also have "\<dots> \<le> \<bar>d - a\<bar> * 1" using c by (intro mult_left_mono) simp_all
  finally have dac: "\<bar>(d - a) * c\<bar> \<le> 2011 / 1000 * u" using da by simp
  have "\<bar>v * (1 - c) + r * c\<bar> \<le> \<bar>v\<bar> * (1 - c) + \<bar>r\<bar> * c"
    using c by (metis abs_mult abs_of_nonneg abs_triangle_ineq diff_ge_0_iff_ge)
  also have "\<dots> \<le> (1 + 1 / 1000) * (1 - c) + (1 + 1 / 1000) * c"
  proof (intro add_mono mult_right_mono)
    show "\<bar>r\<bar> \<le> 1 + 1 / 1000" using r by simp
  qed (use v c in simp_all)
  also have "\<dots> = 1001 / 1000" by (simp add: right_diff_distrib)
  finally have conv: "\<bar>v * (1 - c) + r * c\<bar> \<le> 1001 / 1000" .
  have s_eq: "s = (v * (1 - c) + r * c) + (d - a) * c + (q - x)"
    using k by (simp add: s_def x_def a_def c_def field_simps)
  have s_le: "\<bar>s\<bar> \<le> 1006 / 1000" unfolding s_eq using conv dac qx u(2) by linarith
  have "\<bar>s\<bar> * u \<le> 1006 / 1000 * u" using s_le u(1) by (rule mult_right_mono)
  with rnd [of s] \<eta>(2) have vs: "\<bar>rnd s - s\<bar> \<le> 1016 / 1000 * u" by linarith
  have "\<bar>(v - m) * (1 - c)\<bar> = (1 - c) * \<bar>v - m\<bar>" using c by (simp add: abs_mult)
  then have contr: "\<bar>(v - m) * (1 - c)\<bar> = (1 - 1 / k) * \<bar>v - m\<bar>" by (simp add: c_def)
  have "rnd s - (m + (r - m) / k) = (rnd s - s) + (q - x) + (d - a) * c + (v - m) * (1 - c)"
    using k by (simp add: s_def x_def a_def c_def field_simps)
  then have "\<bar>rnd s - (m + (r - m) / k)\<bar> \<le>
      \<bar>rnd s - s\<bar> + \<bar>q - x\<bar> + \<bar>(d - a) * c\<bar> + \<bar>(v - m) * (1 - c)\<bar>"
    by linarith
  also have "\<dots> \<le> (1 - 1 / k) * \<bar>v - m\<bar> + 6 * u"
    unfolding contr using vs qx dac u(1) by linarith
  finally show ?thesis unfolding s_def q_def x_def d_def a_def .
qed

lemma update_value_error:
  assumes "\<bar>r\<bar> \<le> 1" "\<bar>v\<bar> \<le> 1 + 1 / 1000" "1 \<le> n" "n < 2 ^ 53"
  shows "\<bar>float_add v (float_div (float_sub r v) (float_of_int n)) - (m + (r - m) / of_int n)\<bar>
           \<le> (1 - 1 / of_int n) * \<bar>v - m\<bar> + 6 / 2 ^ 53"
proof -
  have n: "float_of_int n = of_int n"
    unfolding float_of_int_def using assms(3,4) by (intro round_to_double_of_int) simp
  have rnd: "\<bar>round_to_double x - x\<bar> \<le> \<bar>x\<bar> * (1 / 2 ^ 53) + 1 / 2 ^ 1075" for x
    using round_to_double_error [of x] by simp
  have k: "(1::real) \<le> of_int n" using assms(3) by simp
  have "\<bar>round_to_double (v + round_to_double (round_to_double (r - v) / of_int n))
          - (m + (r - m) / of_int n)\<bar> \<le> (1 - 1 / of_int n) * \<bar>v - m\<bar> + 6 * (1 / 2 ^ 53)"
    by (rule incremental_step_error [OF rnd _ _ _ _ assms(1,2) k]) simp_all
  then show ?thesis by (simp add: float_add_def float_div_def float_sub_def n)
qed

section \<open>Properties of the bandit\<close>

lemma map_of_fold_update:
  "map_of (fold (\<lambda>k d. AList.update k (f k) d) ks d0) p =
     (if p \<in> set ks then Some (f p) else map_of d0 p)"
  by (induction ks arbitrary: d0) (auto simp: update_conv')

lemma map_of_dict_comp:
  "map_of (dict_comp (\<lambda>k. k) f ks) p = (if p \<in> set ks then Some (f p) else None)"
  by (simp add: dict_comp_def map_of_fold_update)

text \<open>
  C8. \<^verbatim>\<open>update\<close> with a prompt that is not in the prompt list raises the unknown-prompt
  \<^verbatim>\<open>ValueError\<close> and leaves every field of the bandit as it was.
\<close>

theorem update_unknown_prompt:
  "q \<notin> set (prompts b) \<Longrightarrow>
     update b q reward = (Inl (ValueError (str ''Unknown prompt: '' @ q)), b)"
  by (simp add: update_def)

theorem update_unknown_prompt_witness:
  "str ''Z'' \<notin> set (prompts (init [str ''A'', str ''B''] 0 0.5)) \<and>
   update (init [str ''A'', str ''B''] 0 0.5) (str ''Z'') 1 =
     (Inl (ValueError (str ''Unknown prompt: '' @ str ''Z'')), init [str ''A'', str ''B''] 0 0.5)"
proof -
  have h: "str ''Z'' \<notin> set (prompts (init [str ''A'', str ''B''] 0 0.5))"
    by (simp add: init_def str_def)
  show ?thesis using h update_unknown_prompt [OF h, of 1] by simp
qed

lemma rewards_of_append: "rewards_of p (cs @ ds) = rewards_of p cs @ rewards_of p ds"
  by (induction p cs rule: rewards_of.induct) auto

lemma pick_keeps:
  "prompts (snd (pick b u k)) = prompts b"
  "values (snd (pick b u k)) = values b"
  "counts (snd (pick b u k)) = counts b"
  by (auto simp: pick_def Let_def split: sum.splits option.splits prod.splits)

lemma update_prompts: "prompts (snd (update b q r)) = prompts b"
  by (auto simp: update_def Let_def split: option.splits)

lemma update_other:
  "q \<noteq> p \<Longrightarrow> map_of (values (snd (update b q r))) p = map_of (values b) p"
  "q \<noteq> p \<Longrightarrow> map_of (counts (snd (update b q r))) p = map_of (counts b) p"
  by (auto simp: update_def Let_def update_conv' split: option.splits)

lemma update_same:
  assumes "p \<in> set (prompts b)" "map_of (counts b) p = Some c" "0 \<le> c"
    "map_of (values b) p = Some v"
  shows "map_of (counts (snd (update b p r))) p = Some (c + 1)"
    and "map_of (values (snd (update b p r))) p =
           Some (float_add v (float_div (float_sub r v) (float_of_int (c + 1))))"
  using assms by (auto simp: update_def Let_def update_conv')

lemma incremental_step:
  fixes s r n :: real
  assumes "0 < n"
  shows "(s + r) / (n + 1) = s / n + (r - s / n) / (n + 1)"
proof -
  have nz: "n \<noteq> 0" "n + 1 \<noteq> 0" using assms by auto
  have "(s / n + (r - s / n) / (n + 1)) * (n + 1) = s / n * (n + 1) + (r - s / n)"
    using nz by (simp add: distrib_right)
  also have "\<dots> = s + r" using nz by (simp add: distrib_left)
  finally have "(s / n + (r - s / n) / (n + 1)) = (s + r) / (n + 1)"
    using nz by (simp add: eq_divide_eq)
  then show ?thesis by simp
qed

lemma mean_snoc:
  "mean (rs @ [r]) = (if rs = [] then r else mean rs + (r - mean rs) / of_int (int (length rs) + 1))"
proof (cases "rs = []")
  case True
  then show ?thesis by (simp add: mean_def)
next
  case False
  then have "0 < real (length rs)" by simp
  from incremental_step [OF this, of "sum_list rs" r] False
  show ?thesis by (simp add: mean_def add.commute)
qed

lemma mean_bound:
  assumes "rs \<noteq> []" "\<forall>r\<in>set rs. \<bar>r\<bar> \<le> 1"
  shows "\<bar>mean rs\<bar> \<le> 1"
proof -
  have "\<bar>sum_list rs\<bar> \<le> real (length rs)" using assms(2)
  proof (induction rs)
    case (Cons r rs)
    then have "\<bar>r\<bar> \<le> 1" "\<bar>sum_list rs\<bar> \<le> real (length rs)" by simp_all
    then show ?case by simp
  qed simp
  moreover have "0 < real (length rs)" using assms(1) by simp
  ultimately show ?thesis by (simp add: mean_def field_simps)
qed

lemma after_calls_snoc: "after_calls b (cs @ [c]) = after_call (after_calls b cs) c"
  by (simp add: after_calls_def)

text \<open>
  Every prompt of a bandit that was constructed and then only picked from and updated
  has a value and a count, and the count is the number of updates of that prompt.
\<close>

lemma bandit_invariant:
  assumes "p \<in> set ps"
  shows "prompts (after_calls (init ps eps v0) cs) = ps \<and>
         map_of (counts (after_calls (init ps eps v0) cs)) p = Some (int (length (rewards_of p cs))) \<and>
         (\<exists>v. map_of (values (after_calls (init ps eps v0) cs)) p = Some v)"
proof (induction cs rule: rev_induct)
  case Nil
  show ?case using assms by (simp add: after_calls_def init_def map_of_dict_comp)
next
  case (snoc c cs)
  let ?b = "after_calls (init ps eps v0) cs"
  show ?case
  proof (cases c)
    case (Pick u k)
    then show ?thesis using snoc
      by (simp add: after_calls_snoc pick_keeps rewards_of_append)
  next
    case (Update q r)
    show ?thesis
    proof (cases "q = p")
      case True
      have pin: "p \<in> set (prompts ?b)" using snoc assms by simp
      have c: "map_of (counts ?b) p = Some (int (length (rewards_of p cs)))" using snoc by simp
      from snoc obtain v where v: "map_of (values ?b) p = Some v" by blast
      have nn: "0 \<le> int (length (rewards_of p cs))" by simp
      note us = update_same [OF pin c nn v, of r]
      show ?thesis using us snoc Update True
        by (simp add: after_calls_snoc update_prompts rewards_of_append)
    next
      case False
      then show ?thesis using snoc Update
        by (simp add: after_calls_snoc update_prompts update_other rewards_of_append)
    qed
  qed
qed

text \<open>
  The accuracy of the stored value: while the initial value and the rewards passed for
  \<open>p\<close> have magnitude at most 1 and there are at most a million of them, each update
  adds a rounding error of at most \<open>6 / 2 ^ 53\<close> to the distance from the mean.
\<close>

lemma value_invariant:
  assumes "p \<in> set ps" "\<bar>v0\<bar> \<le> 1"
    and "\<forall>r\<in>set (rewards_of p cs). \<bar>r\<bar> \<le> 1" "length (rewards_of p cs) \<le> 1000000"
  shows "\<exists>v. map_of (values (after_calls (init ps eps v0) cs)) p = Some v \<and>
           (if rewards_of p cs = [] then v = v0
            else \<bar>v - mean (rewards_of p cs)\<bar> \<le> real (length (rewards_of p cs)) * (6 / 2 ^ 53))"
  using assms(3,4)
proof (induction cs rule: rev_induct)
  case Nil
  show ?case using assms(1) by (simp add: after_calls_def init_def map_of_dict_comp)
next
  case (snoc c cs)
  let ?b = "after_calls (init ps eps v0) cs"
  let ?rs = "rewards_of p cs"
  show ?case
  proof (cases c)
    case (Pick u k)
    have rs': "rewards_of p (cs @ [c]) = ?rs" using Pick by (simp add: rewards_of_append)
    have vs': "values (after_calls (init ps eps v0) (cs @ [c])) = values ?b"
      using Pick by (simp add: after_calls_snoc pick_keeps)
    from snoc.prems [unfolded rs'] show ?thesis unfolding rs' vs' by (rule snoc.IH)
  next
    case (Update q r)
    show ?thesis
    proof (cases "q = p")
      case False
      have rs': "rewards_of p (cs @ [c]) = ?rs"
        using Update False by (simp add: rewards_of_append)
      have vs': "map_of (values (after_calls (init ps eps v0) (cs @ [c]))) p = map_of (values ?b) p"
        using Update False by (simp add: after_calls_snoc update_other)
      from snoc.prems [unfolded rs'] show ?thesis unfolding rs' vs' by (rule snoc.IH)
    next
      case True
      have rs': "rewards_of p (cs @ [c]) = ?rs @ [r]"
        using Update True by (simp add: rewards_of_append)
      have r: "\<bar>r\<bar> \<le> 1" and rs: "\<forall>x\<in>set ?rs. \<bar>x\<bar> \<le> 1"
        and len: "length ?rs + 1 \<le> 1000000"
        using snoc.prems unfolding rs' by simp_all
      from snoc.IH rs len obtain v where v: "map_of (values ?b) p = Some v"
        and acc: "if ?rs = [] then v = v0
                  else \<bar>v - mean ?rs\<bar> \<le> real (length ?rs) * (6 / 2 ^ 53)"
        by auto
      note inv = bandit_invariant [OF assms(1), of eps v0 cs]
      have pin: "p \<in> set (prompts ?b)" using inv assms(1) by simp
      have c: "map_of (counts ?b) p = Some (int (length ?rs))" using inv by simp
      have nn: "0 \<le> int (length ?rs)" by simp
      let ?n = "int (length ?rs) + 1"
      let ?v' = "float_add v (float_div (float_sub r v) (float_of_int ?n))"
      have new: "map_of (values (after_calls (init ps eps v0) (cs @ [c]))) p = Some ?v'"
        using update_same(2) [OF pin c nn v, of r] Update True by (simp add: after_calls_snoc)
      have n1: "1 \<le> ?n" by simp
      have n2: "?n < 2 ^ 53" using len by simp
      have small: "real (length ?rs) * (6 / 2 ^ 53) \<le> 1 / 1000"
      proof -
        have "real (length ?rs) \<le> 1000000" using len by simp
        then show ?thesis by simp
      qed
      have "\<bar>?v' - mean (?rs @ [r])\<bar> \<le> real (length (?rs @ [r])) * (6 / 2 ^ 53)"
      proof (cases "?rs = []")
        case True
        then have "v = v0" using acc by simp
        then have vb: "\<bar>v\<bar> \<le> 1 + 1 / 1000" using assms(2) by simp
        from update_value_error [OF r vb n1 n2, of v] True
        show ?thesis by (simp add: mean_def)
      next
        case False
        then have e: "\<bar>v - mean ?rs\<bar> \<le> real (length ?rs) * (6 / 2 ^ 53)" using acc by simp
        have "\<bar>mean ?rs\<bar> \<le> 1" using False rs by (rule mean_bound)
        with e small have vb: "\<bar>v\<bar> \<le> 1 + 1 / 1000" by linarith
        have f: "1 - 1 / real_of_int ?n \<le> 1" by simp
        have "(1 - 1 / real_of_int ?n) * \<bar>v - mean ?rs\<bar> \<le> 1 * \<bar>v - mean ?rs\<bar>"
          using f by (rule mult_right_mono) simp
        then have "(1 - 1 / real_of_int ?n) * \<bar>v - mean ?rs\<bar> \<le> \<bar>v - mean ?rs\<bar>" by simp
        then have g: "(1 - 1 / real_of_int ?n) * \<bar>v - mean ?rs\<bar>
                        \<le> real (length ?rs) * (6 / 2 ^ 53)"
          using e by (rule order_trans)
        note update_value_error [OF r vb n1 n2, of "mean ?rs"]
        also have "(1 - 1 / real_of_int ?n) * \<bar>v - mean ?rs\<bar> + 6 / 2 ^ 53
                     \<le> real (length ?rs) * (6 / 2 ^ 53) + 6 / 2 ^ 53"
          using g by (rule add_right_mono)
        finally have "\<bar>?v' - (mean ?rs + (r - mean ?rs) / real_of_int ?n)\<bar>
                \<le> real (length ?rs) * (6 / 2 ^ 53) + 6 / 2 ^ 53" .
        moreover have "mean (?rs @ [r]) = mean ?rs + (r - mean ?rs) / real_of_int ?n"
          using False by (simp add: mean_snoc)
        moreover have "real (length (?rs @ [r])) * (6 / 2 ^ 53) =
            real (length ?rs) * (6 / 2 ^ 53) + 6 / 2 ^ 53"
          by (simp add: distrib_right)
        ultimately show ?thesis by simp
      qed
      then show ?thesis unfolding rs' using new by simp
    qed
  qed
qed

text \<open>
  C1, as the code has it. On a freshly constructed bandit, after any sequence of calls
  in which the prompt \<open>p\<close> of the prompt list has been updated \<open>n \<ge> 1\<close> times (with
  picks and updates of other prompts in between), \<^verbatim>\<open>counts[p]\<close> is \<open>n\<close> for any initial
  value and any rewards. When the initial value and the rewards passed for \<open>p\<close> have
  magnitude at most 1 and \<open>n\<close> is at most a million, \<^verbatim>\<open>values[p]\<close>, computed in
  doubles, lies within \<open>6 n / 2 ^ 53\<close> of the arithmetic mean of those rewards, which is
  within 1e-9.
\<close>

theorem update_incremental_mean:
  assumes "p \<in> set ps" and "rewards_of p cs \<noteq> []"
  shows "map_of (counts (after_calls (init ps eps v0) cs)) p = Some (int (length (rewards_of p cs))) \<and>
         (\<bar>v0\<bar> \<le> 1 \<and> (\<forall>r\<in>set (rewards_of p cs). \<bar>r\<bar> \<le> 1) \<and>
          length (rewards_of p cs) \<le> 1000000 \<longrightarrow>
            (\<exists>v. map_of (values (after_calls (init ps eps v0) cs)) p = Some v \<and>
                 \<bar>v - mean (rewards_of p cs)\<bar> \<le> real (length (rewards_of p cs)) * (6 / 2 ^ 53) \<and>
                 \<bar>v - mean (rewards_of p cs)\<bar> \<le> 1 / 10 ^ 9))"
proof (intro conjI impI)
  show "map_of (counts (after_calls (init ps eps v0) cs)) p = Some (int (length (rewards_of p cs)))"
    using bandit_invariant [OF assms(1), of eps v0 cs] by simp
next
  assume h: "\<bar>v0\<bar> \<le> 1 \<and> (\<forall>r\<in>set (rewards_of p cs). \<bar>r\<bar> \<le> 1) \<and>
             length (rewards_of p cs) \<le> 1000000"
  then have h1: "\<bar>v0\<bar> \<le> 1" and h2: "\<forall>r\<in>set (rewards_of p cs). \<bar>r\<bar> \<le> 1"
    and h3: "length (rewards_of p cs) \<le> 1000000" by blast+
  from value_invariant [OF assms(1) h1 h2 h3, of eps] assms(2) obtain v where
    v: "map_of (values (after_calls (init ps eps v0) cs)) p = Some v"
    and e: "\<bar>v - mean (rewards_of p cs)\<bar> \<le> real (length (rewards_of p cs)) * (6 / 2 ^ 53)"
    by auto
  have "real (length (rewards_of p cs)) \<le> 1000000" using h3 by simp
  then have "real (length (rewards_of p cs)) * (6 / 2 ^ 53) \<le> 1 / 10 ^ 9" by simp
  with e have "\<bar>v - mean (rewards_of p cs)\<bar> \<le> 1 / 10 ^ 9" by linarith
  with v e show "\<exists>v. map_of (values (after_calls (init ps eps v0) cs)) p = Some v \<and>
      \<bar>v - mean (rewards_of p cs)\<bar> \<le> real (length (rewards_of p cs)) * (6 / 2 ^ 53) \<and>
      \<bar>v - mean (rewards_of p cs)\<bar> \<le> 1 / 10 ^ 9"
    by blast
qed

theorem update_incremental_mean_witness:
  "str ''A'' \<in> set [str ''A'', str ''B'', str ''C''] \<and>
   rewards_of (str ''A'') [Update (str ''A'') 1, Pick 0.9 0, Update (str ''B'') 0.3, Update (str ''A'') 0] = [1, 0] \<and>
   \<bar>1 / 2 :: real\<bar> \<le> 1 \<and>
   map_of (counts (after_calls (init [str ''A'', str ''B'', str ''C''] 0 (1 / 2))
      [Update (str ''A'') 1, Pick 0.9 0, Update (str ''B'') 0.3, Update (str ''A'') 0])) (str ''A'') = Some 2 \<and>
   (\<exists>v. map_of (values (after_calls (init [str ''A'', str ''B'', str ''C''] 0 (1 / 2))
      [Update (str ''A'') 1, Pick 0.9 0, Update (str ''B'') 0.3, Update (str ''A'') 0])) (str ''A'') = Some v \<and>
      \<bar>v - 1 / 2\<bar> \<le> 2 * (6 / 2 ^ 53) \<and> \<bar>v - 1 / 2\<bar> \<le> 1 / 10 ^ 9) \<and>
   map_of (values (after_calls (init [str ''A'', str ''B'', str ''C''] 0 (1 / 2))
      [Update (str ''A'') 1, Pick 0.9 0, Update (str ''B'') 0.3, Update (str ''A'') 0])) (str ''A'') = Some (1 / 2)"
proof -
  let ?cs = "[Update (str ''A'') 1, Pick 0.9 0, Update (str ''B'') 0.3, Update (str ''A'') 0]"
  have h1: "str ''A'' \<in> set [str ''A'', str ''B'', str ''C'']" by simp
  have rs: "rewards_of (str ''A'') ?cs = [1, 0]" by (simp add: str_def)
  have h2: "rewards_of (str ''A'') ?cs \<noteq> []" unfolding rs by simp
  have m: "mean [1, 0] = 1 / 2" by (simp add: mean_def)
  have ev: "map_of (values (after_calls (init [str ''A'', str ''B'', str ''C''] 0 (1 / 2)) ?cs))
      (str ''A'') = Some (1 / 2)"
    by (simp add: after_calls_def init_def dict_comp_def update_def pick_def max_prompt_def
        Let_def float_add_def float_sub_def float_div_def float_of_int_def double_values str_def)
  show ?thesis
    using h1 ev update_incremental_mean [OF h1 h2, of 0 "1 / 2"] unfolding rs m by simp
qed

text \<open>
  C1 as stated fails for a large initial value. The literal \<^verbatim>\<open>1e30\<close> denotes the double
  \<open>1000000000000000019884624838656\<close>. On a bandit constructed with that initial value,
  \<^verbatim>\<open>update(p, 1.0)\<close> computes \<^verbatim>\<open>1.0 - 1e30\<close>, which rounds to \<^verbatim>\<open>-1e30\<close>, and stores
  \<^verbatim>\<open>1e30 + (-1e30) / 1\<close>, which is 0.0: the count is 1, the mean of the rewards is 1,
  and the stored value is 0.
\<close>

theorem update_large_initial_value_counterexample:
  "round_to_double (10 ^ 30) = 1000000000000000019884624838656 \<and>
   rewards_of (str ''A'') [Update (str ''A'') 1] = [1] \<and>
   mean (rewards_of (str ''A'') [Update (str ''A'') 1]) = 1 \<and>
   map_of (counts (after_calls (init [str ''A''] (1 / 5) 1000000000000000019884624838656)
      [Update (str ''A'') 1])) (str ''A'') = Some 1 \<and>
   map_of (values (after_calls (init [str ''A''] (1 / 5) 1000000000000000019884624838656)
      [Update (str ''A'') 1])) (str ''A'') = Some 0 \<and>
   1 / 10 ^ 9 < \<bar>0 - mean (rewards_of (str ''A'') [Update (str ''A'') 1])\<bar>"
proof -
  let ?D = "1000000000000000019884624838656 :: real"
  have lit: "round_to_double (10 ^ 30) = ?D"
  proof -
    have "ulp_exponent (10 ^ 30) = Some 47" by (rule ulp_exponent_eq) simp_all
    then show ?thesis by (simp add: round_to_double_eval round_half_even_def)
  qed
  have sub: "float_sub 1 ?D = - ?D"
  proof -
    have "ulp_exponent (1 - ?D) = Some 47" by (rule ulp_exponent_eq) simp_all
    then show ?thesis by (simp add: float_sub_def round_to_double_eval round_half_even_def)
  qed
  have one: "float_of_int 1 = 1" by (simp add: float_of_int_def double_values)
  have dv: "float_div (- ?D) 1 = - ?D"
    using round_to_double_exact [of "- 7105427357601002" 47] by (simp add: float_div_def)
  have add: "float_add ?D (- ?D) = 0" by (simp add: float_add_def double_values)
  have m: "mean (rewards_of (str ''A'') [Update (str ''A'') 1]) = 1" by (simp add: mean_def)
  have st: "map_of (values (after_calls (init [str ''A''] (1 / 5) ?D) [Update (str ''A'') 1]))
              (str ''A'') = Some 0"
    by (simp add: after_calls_def init_def dict_comp_def update_def Let_def sub one dv add)
  have ct: "map_of (counts (after_calls (init [str ''A''] (1 / 5) ?D) [Update (str ''A'') 1]))
              (str ''A'') = Some 1"
    by (simp add: after_calls_def init_def dict_comp_def update_def Let_def)
  show ?thesis using lit m st ct by simp
qed

lemma all_some_Some: "all_some (map Some xs) = Some xs"
  by (induction xs) auto

lemma as_list_strings: "as_list as_str (JArray (map JString ps)) = Some ps"
proof -
  have "map as_str (map JString ps) = map Some ps" by (induction ps) auto
  then show ?thesis by (simp only: as_list.simps all_some_Some)
qed

lemma as_list_any: "as_list Some (JArray h) = Some h"
  by (simp only: as_list.simps all_some_Some)

lemma as_dict_floats: "as_dict as_float (JObject (map (\<lambda>(k, v). (k, JFloat v)) d)) = Some d"
proof -
  have "map (\<lambda>(k, j). case as_float j of None \<Rightarrow> None | Some v \<Rightarrow> Some (k, v))
          (map (\<lambda>(k, v). (k, JFloat v)) d) = map Some d"
    by (induction d) auto
  then show ?thesis by (simp only: as_dict.simps all_some_Some)
qed

lemma as_dict_ints: "as_dict as_int (JObject (map (\<lambda>(k, c). (k, JInt c)) d)) = Some d"
proof -
  have "map (\<lambda>(k, j). case as_int j of None \<Rightarrow> None | Some v \<Rightarrow> Some (k, v))
          (map (\<lambda>(k, c). (k, JInt c)) d) = map Some d"
    by (induction d) auto
  then show ?thesis by (simp only: as_dict.simps all_some_Some)
qed

lemma load_saved:
  "load_state b0 path (save_state b path fs) =
     (Inr (), b\<lparr>history := drop (length (history b) - 100) (history b)\<rparr>)"
  by (simp add: load_state_def save_state_def read_member_def history_member_def str_def
      as_list_strings as_dict_floats as_dict_ints as_list_any
      del: as_list.simps as_dict.simps)

text \<open>
  C9. Saving any bandit state to a file and loading that file into any other bandit
  returns normally and yields the saved prompts, epsilon, values, counts and
  total_selections; the history comes back as its last 100 entries.
\<close>

theorem save_load_roundtrip:
  "fst (load_state b0 path (save_state b path fs)) = Inr () \<and>
   prompts (snd (load_state b0 path (save_state b path fs))) = prompts b \<and>
   epsilon (snd (load_state b0 path (save_state b path fs))) = epsilon b \<and>
   values (snd (load_state b0 path (save_state b path fs))) = values b \<and>
   counts (snd (load_state b0 path (save_state b path fs))) = counts b \<and>
   total_selections (snd (load_state b0 path (save_state b path fs))) = total_selections b \<and>
   history (snd (load_state b0 path (save_state b path fs))) =
     drop (length (history b) - 100) (history b)"
  by (simp add: load_saved)

theorem save_load_roundtrip_witness:
  "fst (load_state (init [str ''X''] 0 0) (str ''state.json'')
         (save_state (after_calls (init [str ''A'', str ''B''] (1 / 5) (1 / 2))
                        [Pick (9 / 10) 0, Update (str ''A'') 1])
            (str ''state.json'') Map.empty)) = Inr () \<and>
   prompts (snd (load_state (init [str ''X''] 0 0) (str ''state.json'')
         (save_state (after_calls (init [str ''A'', str ''B''] (1 / 5) (1 / 2))
                        [Pick (9 / 10) 0, Update (str ''A'') 1])
            (str ''state.json'') Map.empty))) = [str ''A'', str ''B''] \<and>
   epsilon (snd (load_state (init [str ''X''] 0 0) (str ''state.json'')
         (save_state (after_calls (init [str ''A'', str ''B''] (1 / 5) (1 / 2))
                        [Pick (9 / 10) 0, Update (str ''A'') 1])
            (str ''state.json'') Map.empty))) = 1 / 5 \<and>
   values (snd (load_state (init [str ''X''] 0 0) (str ''state.json'')
         (save_state (after_calls (init [str ''A'', str ''B''] (1 / 5) (1 / 2))
                        [Pick (9 / 10) 0, Update (str ''A'') 1])
            (str ''state.json'') Map.empty))) = [(str ''A'', 1), (str ''B'', 1 / 2)] \<and>
   counts (snd (load_state (init [str ''X''] 0 0) (str ''state.json'')
         (save_state (after_calls (init [str ''A'', str ''B''] (1 / 5) (1 / 2))
                        [Pick (9 / 10) 0, Update (str ''A'') 1])
            (str ''state.json'') Map.empty))) = [(str ''A'', 1), (str ''B'', 0)] \<and>
   total_selections (snd (load_state (init [str ''X''] 0 0) (str ''state.json'')
         (save_state (after_calls (init [str ''A'', str ''B''] (1 / 5) (1 / 2))
                        [Pick (9 / 10) 0, Update (str ''A'') 1])
            (str ''state.json'') Map.empty))) = 1"
proof -
  let ?b = "after_calls (init [str ''A'', str ''B''] (1 / 5) (1 / 2))
              [Pick (9 / 10) 0, Update (str ''A'') 1]"
  have ne: "str ''A'' \<noteq> str ''B''" by (simp add: str_def)
  have b1: "snd (pick (init [str ''A'', str ''B''] (1 / 5) (1 / 2)) (9 / 10) 0) =
      \<lparr> prompts = [str ''A'', str ''B''], epsilon = 1 / 5,
        values = [(str ''A'', 1 / 2), (str ''B'', 1 / 2)],
        counts = [(str ''A'', 0), (str ''B'', 0)],
        total_selections = 1,
        history = [JObject [(str ''selection'', JInt 1), (str ''prompt'', JString (str ''A'')),
                            (str ''type'', JString (str ''exploit'')),
                            (str ''value'', JFloat (1 / 2))]] \<rparr>"
    using ne by (simp add: pick_def init_def dict_comp_def max_prompt_def Let_def)
  have b: "?b =
      \<lparr> prompts = [str ''A'', str ''B''], epsilon = 1 / 5,
        values = [(str ''A'', 1), (str ''B'', 1 / 2)],
        counts = [(str ''A'', 1), (str ''B'', 0)],
        total_selections = 1,
        history = [JObject [(str ''selection'', JInt 1), (str ''prompt'', JString (str ''A'')),
                            (str ''type'', JString (str ''exploit'')),
                            (str ''value'', JFloat (1 / 2))],
                   JObject [(str ''selection'', JInt 1), (str ''prompt'', JString (str ''A'')),
                            (str ''type'', JString (str ''update'')),
                            (str ''reward'', JFloat 1), (str ''new_value'', JFloat 1),
                            (str ''count'', JInt 1)]] \<rparr>"
    using ne
    by (simp add: after_calls_def b1 update_def Let_def float_add_def float_sub_def
        float_div_def float_of_int_def double_values)
  note rt = save_load_roundtrip [of "init [str ''X''] 0 0" "str ''state.json''" ?b Map.empty]
  have "prompts ?b = [str ''A'', str ''B'']" "epsilon ?b = 1 / 5"
    "values ?b = [(str ''A'', 1), (str ''B'', 1 / 2)]"
    "counts ?b = [(str ''A'', 1), (str ''B'', 0)]" "total_selections ?b = 1"
    by (simp_all add: b)
  with rt show ?thesis by simp
qed

lemma prompts_after_call: "prompts (after_call b c) = prompts b"
  by (cases c) (simp_all add: pick_keeps update_prompts)

lemma prompts_after_calls: "prompts (after_calls b cs) = prompts b"
  unfolding after_calls_def
  by (induction cs arbitrary: b) (simp_all add: prompts_after_call)

lemma stat_rows_total:
  assumes "\<And>p. p \<in> set ps \<Longrightarrow> map_of (values b) p \<noteq> None \<and> map_of (counts b) p \<noteq> None"
  shows "\<exists>rows. stat_rows b ps = Inr rows \<and> map stat_prompt rows = ps"
  using assms
proof (induction ps)
  case Nil
  then show ?case by simp
next
  case (Cons p ps)
  from Cons.prems [of p] obtain v c where
    vc: "map_of (values b) p = Some v" "map_of (counts b) p = Some c" by auto
  from Cons.IH Cons.prems obtain rows where
    rows: "stat_rows b ps = Inr rows" "map stat_prompt rows = ps" by auto
  show ?case using vc rows by simp
qed

lemma get_stats_after_calls:
  "\<exists>rows. get_stats (after_calls (init ps eps v0) cs) =
       Inr \<lparr> stats_total_selections = total_selections (after_calls (init ps eps v0) cs),
             stats_epsilon = epsilon (after_calls (init ps eps v0) cs),
             stats_prompts = sort_reverse stat_value rows \<rparr> \<and>
     map stat_prompt rows = ps"
proof -
  let ?b = "after_calls (init ps eps v0) cs"
  have ps: "prompts ?b = ps" by (simp add: prompts_after_calls init_def)
  have "map_of (values ?b) p \<noteq> None \<and> map_of (counts ?b) p \<noteq> None" if "p \<in> set ps" for p
    using bandit_invariant [OF that, of eps v0 cs] by simp
  from stat_rows_total [of ps ?b, OF this] obtain rows where
    "stat_rows ?b ps = Inr rows" "map stat_prompt rows = ps" by blast
  then show ?thesis using ps by (auto simp: get_stats_def)
qed

text \<open>
  C7, as the code has it. A request for a language code that is not a key of
  \<open>BANDITS\<close> fails with HTTP status 404 (not 400); for a known code the handler returns
  what \<^verbatim>\<open>get_stats\<close> of that bandit returns, and for a bandit that was constructed and
  then only picked from and updated this is a body with status 200.
\<close>

theorem get_language_stats_404:
  "(map_of BANDITS lang_code = None \<longrightarrow>
      get_language_stats BANDITS lang_code =
        Inl (HTTPException 404 (str ''Language '' @ lang_code @ str '' not initialized'')) \<and>
      status_code (get_language_stats BANDITS lang_code) = 404) \<and>
   (map_of BANDITS lang_code = Some b \<longrightarrow>
      get_language_stats BANDITS lang_code = get_stats b) \<and>
   (map_of BANDITS lang_code = Some (after_calls (init ps eps v0) cs) \<longrightarrow>
      status_code (get_language_stats BANDITS lang_code) = 200)"
proof -
  have "status_code (get_stats (after_calls (init ps eps v0) cs)) = 200"
    using get_stats_after_calls [of ps eps v0 cs] by auto
  then show ?thesis by (auto simp: get_language_stats_def)
qed

theorem get_language_stats_404_witness:
  "map_of [(str ''haw'', after_calls (init [str ''A''] 0.2 0.5) [])] (str ''fr'') = None \<and>
   status_code (get_language_stats [(str ''haw'', after_calls (init [str ''A''] 0.2 0.5) [])] (str ''fr'')) = 404 \<and>
   map_of [(str ''haw'', after_calls (init [str ''A''] 0.2 0.5) [])] (str ''haw'') =
     Some (after_calls (init [str ''A''] 0.2 0.5) []) \<and>
   get_language_stats [(str ''haw'', after_calls (init [str ''A''] 0.2 0.5) [])] (str ''haw'') =
     get_stats (after_calls (init [str ''A''] 0.2 0.5) []) \<and>
   status_code (get_language_stats [(str ''haw'', after_calls (init [str ''A''] 0.2 0.5) [])] (str ''haw'')) = 200"
proof -
  let ?B = "[(str ''haw'', after_calls (init [str ''A''] 0.2 0.5) [])]"
  have h1: "map_of ?B (str ''fr'') = None" by (simp add: str_def)
  have h2: "map_of ?B (str ''haw'') = Some (after_calls (init [str ''A''] 0.2 0.5) [])" by simp
  note unknown = get_language_stats_404 [of ?B "str ''fr''" "init [] 0 0" "[]" 0 0 "[]"]
  note known = get_language_stats_404
    [of ?B "str ''haw''" "after_calls (init [str ''A''] 0.2 0.5) []" "[str ''A'']" "0.2" "0.5" "[]"]
  show ?thesis using h1 h2 unknown known by blast
qed

text \<open>
  C7 as stated fails: with only the Hawaiian bandit initialised, the request for
  \<^verbatim>\<open>fr\<close> is answered with status 404, which is not 400.
\<close>

theorem get_language_stats_400_counterexample:
  "map_of [(str ''haw'', init [str ''A''] 0.2 0.5)] (str ''fr'') = None \<and>
   status_code (get_language_stats [(str ''haw'', init [str ''A''] 0.2 0.5)] (str ''fr'')) = 404 \<and>
   status_code (get_language_stats [(str ''haw'', init [str ''A''] 0.2 0.5)] (str ''fr'')) \<noteq> 400"
  by (simp add: get_language_stats_def str_def)






lemma ranked_sort_reverse: "ranked_by_R scored (sort_reverse R scored)"
proof -
  have "sorted (map (\<lambda>x. - R x) (sort_key (\<lambda>x. - R x) scored))" by (rule sorted_sort_key)
  then have s: "sorted_wrt (\<lambda>a b. R a \<ge> R b) (sort_key (\<lambda>x. - R x) scored)"
    by (simp add: sorted_map)
  have "filter (\<lambda>c. R c = r) (sort_key (\<lambda>x. - R x) scored) = filter (\<lambda>c. R c = r) scored" for r
    using sort_key_stable [of "\<lambda>x. - R x" "- r" scored] by simp
  with s show ?thesis by (simp add: ranked_by_R_def sort_reverse_def)
qed

lemma sort_reverse_empty: "sort_reverse key xs = [] \<longleftrightarrow> xs = []"
proof -
  have "length (sort_reverse key xs) = length xs" by (simp add: sort_reverse_def)
  then show ?thesis by (metis length_0_conv)
qed

lemma keyed_total:
  assumes "\<And>p. p \<in> set ps \<Longrightarrow> map_of d p \<noteq> None"
  shows "\<exists>kvs. keyed d ps = Inr kvs \<and> map fst kvs = ps"
  using assms
proof (induction ps)
  case Nil
  then show ?case by simp
next
  case (Cons p ps)
  from Cons.prems [of p] obtain v where v: "map_of d p = Some v" by auto
  from Cons.IH Cons.prems obtain kvs where "keyed d ps = Inr kvs" "map fst kvs = ps" by auto
  with v show ?case by simp
qed

lemma max_from_mem: "max_from kv kvs \<in> fst ` set (kv # kvs)"
  by (induction kv kvs rule: max_from.induct) auto

lemma max_prompt_total:
  assumes "ps \<noteq> []" and "\<And>p. p \<in> set ps \<Longrightarrow> map_of d p \<noteq> None"
  shows "\<exists>p. max_prompt d ps = Inr p \<and> p \<in> set ps"
proof -
  from keyed_total [OF assms(2)] obtain kvs where kvs: "keyed d ps = Inr kvs" "map fst kvs = ps"
    by blast
  with assms(1) obtain kv rest where c: "kvs = kv # rest" by (cases kvs) auto
  have "max_from kv rest \<in> fst ` set kvs" unfolding c by (rule max_from_mem)
  also have "fst ` set kvs = set ps" using kvs(2) by (metis set_map)
  finally show ?thesis using kvs(1) c by (simp add: max_prompt_def)
qed

lemma pick_total:
  assumes "prompts b \<noteq> []" and "\<And>p. p \<in> set (prompts b) \<Longrightarrow> map_of (values b) p \<noteq> None"
  shows "\<exists>p. fst (pick b u k) = Inr p \<and> p \<in> set (prompts b)"
proof (cases "u < epsilon b")
  case True
  let ?p = "prompts b ! (k mod length (prompts b))"
  have mem: "?p \<in> set (prompts b)" using assms(1) by simp
  from assms(2) [OF mem] obtain v where "map_of (values b) ?p = Some v" by auto
  with True assms(1) mem show ?thesis by (simp add: pick_def Let_def)
next
  case False
  from max_prompt_total [OF assms] obtain p where p: "max_prompt (values b) (prompts b) = Inr p"
    "p \<in> set (prompts b)" by blast
  from assms(2) [OF p(2)] obtain v where "map_of (values b) p = Some v" by auto
  with False p show ?thesis by (simp add: pick_def Let_def)
qed

lemma update_total:
  assumes "p \<in> set (prompts b)" "map_of (counts b) p = Some c" "0 \<le> c"
    "map_of (values b) p = Some v"
  shows "fst (update b p r) = Inr ()"
  using assms by (auto simp: update_def Let_def update_conv')

lemma length_gym_scored [simp]:
  "length (gym_scored_candidates metrics weights src cands) = length cands"
  by (simp add: gym_scored_candidates_def enumerate_from0_def)

lemma length_api_scored [simp]:
  "length (api_scored_candidates metrics weights src cands) = length cands"
  by (simp add: api_scored_candidates_def enumerate_from0_def)

lemma gym_ranked_nonempty:
  "cands \<noteq> [] \<Longrightarrow> sort_reverse R (gym_scored_candidates metrics weights src cands) \<noteq> []"
proof -
  assume "cands \<noteq> []"
  then have "length (gym_scored_candidates metrics weights src cands) \<noteq> 0" by simp
  then have "gym_scored_candidates metrics weights src cands \<noteq> []" by (metis list.size(3))
  then show ?thesis by (simp only: sort_reverse_empty not_False_eq_True)
qed

lemma api_ranked_nonempty:
  "cands \<noteq> [] \<Longrightarrow> sort_reverse R (api_scored_candidates metrics weights src cands) \<noteq> []"
proof -
  assume "cands \<noteq> []"
  then have "length (api_scored_candidates metrics weights src cands) \<noteq> 0" by simp
  then have "api_scored_candidates metrics weights src cands \<noteq> []" by (metis list.size(3))
  then show ?thesis by (simp only: sort_reverse_empty not_False_eq_True)
qed

lemma pick_after_calls:
  assumes "ps \<noteq> []"
  shows "\<exists>p. pick (after_calls (init ps eps v0) cs) u k =
            (Inr p, after_calls (init ps eps v0) (cs @ [Pick u k])) \<and> p \<in> set ps"
proof -
  let ?b = "after_calls (init ps eps v0) cs"
  have ps: "prompts ?b = ps" by (simp add: prompts_after_calls init_def)
  have "map_of (values ?b) p \<noteq> None" if "p \<in> set (prompts ?b)" for p
    using bandit_invariant [of p ps eps v0 cs] that ps by simp
  from pick_total [of ?b, OF _ this] assms ps obtain p where
    "fst (pick ?b u k) = Inr p" "p \<in> set ps" by auto
  then show ?thesis by (auto simp: after_calls_snoc prod_eq_iff)
qed

lemma update_after_calls:
  assumes "p \<in> set ps"
  shows "update (after_calls (init ps eps v0) cs) p r =
           (Inr (), after_calls (init ps eps v0) (cs @ [Update p r]))"
proof -
  let ?b = "after_calls (init ps eps v0) cs"
  note inv = bandit_invariant [OF assms, of eps v0 cs]
  from inv obtain v where v: "map_of (values ?b) p = Some v" by blast
  have "fst (update ?b p r) = Inr ()"
    by (rule update_total [where c = "int (length (rewards_of p cs))" and v = v])
       (use inv v assms in auto)
  then show ?thesis by (auto simp: after_calls_snoc prod_eq_iff)
qed

lemma process_example_ranked:
  assumes "ps \<noteq> []"
    and "\<And>p. p \<in> set ps \<Longrightarrow> generate gen (example_src ex) k p temperature \<noteq> []"
  shows "\<exists>res b' p. process_example (after_calls (init ps eps v0) cs) gen metrics weights k
              temperature ex u draw = (Inr res, b') \<and>
           p \<in> set ps \<and> result_prompt res = p \<and>
           ranked_by_R (gym_scored_candidates metrics weights (example_src ex)
                          (generate gen (example_src ex) k p temperature)) (candidates res) \<and>
           candidates res \<noteq> [] \<and> best res = candidates res ! 0 \<and>
           R (best res) = R (candidates res ! 0)"
proof -
  from pick_after_calls [OF assms(1), of eps v0 cs u draw] obtain p where
    p: "pick (after_calls (init ps eps v0) cs) u draw =
          (Inr p, after_calls (init ps eps v0) (cs @ [Pick u draw]))" "p \<in> set ps" by blast
  let ?scored = "gym_scored_candidates metrics weights (example_src ex)
                   (generate gen (example_src ex) k p temperature)"
  have "sort_reverse R ?scored \<noteq> []"
    using assms(2) [OF p(2)] by (rule gym_ranked_nonempty)
  then obtain bc rest where s: "sort_reverse R ?scored = bc # rest"
    by (cases "sort_reverse R ?scored") auto
  note u = update_after_calls [OF p(2), of eps v0 "cs @ [Pick u draw]" "R bc"]
  have r: "ranked_by_R ?scored (bc # rest)" using ranked_sort_reverse [of ?scored] s by simp
  show ?thesis
    using p s u r by (simp add: process_example_def Let_def)
qed

lemma translate_segment_showcase:
  assumes "showcase_generate gen (segment_src seg) k \<noteq> []"
  shows "\<exists>res. translate_segment b gen metrics weights k temperature prompt_template
              (str ''showcase'') seg u draw = (Inr res, b) \<and>
           ranked_by_R (api_scored_candidates metrics weights (segment_src seg)
                          (showcase_generate gen (segment_src seg) k))
                       (translation_candidates res) \<and>
           translation_candidates res \<noteq> [] \<and>
           best_tgt res = cand_text (translation_candidates res ! 0)"
proof -
  let ?scored = "api_scored_candidates metrics weights (segment_src seg)
                   (showcase_generate gen (segment_src seg) k)"
  have "sort_reverse R ?scored \<noteq> []"
    using assms by (rule api_ranked_nonempty)
  then obtain bc rest where s: "sort_reverse R ?scored = bc # rest"
    by (cases "sort_reverse R ?scored") auto
  have r: "ranked_by_R ?scored (bc # rest)" using ranked_sort_reverse [of ?scored] s by simp
  show ?thesis using s r by (simp add: translate_segment_def Let_def)
qed

lemma translate_segment_rlvr:
  assumes "ps \<noteq> []"
    and "\<And>p. p \<in> set ps \<Longrightarrow> generate gen (segment_src seg) k p temperature \<noteq> []"
  shows "\<exists>res b' p. translate_segment (after_calls (init ps eps v0) cs) gen metrics weights k
              temperature prompt_template (str ''rlvr'') seg u draw = (Inr res, b') \<and>
           p \<in> set ps \<and> translation_prompt res = p \<and>
           ranked_by_R (api_scored_candidates metrics weights (segment_src seg)
                          (generate gen (segment_src seg) k p temperature))
                       (translation_candidates res) \<and>
           translation_candidates res \<noteq> [] \<and>
           best_tgt res = cand_text (translation_candidates res ! 0)"
proof -
  from pick_after_calls [OF assms(1), of eps v0 cs u draw] obtain p where
    p: "pick (after_calls (init ps eps v0) cs) u draw =
          (Inr p, after_calls (init ps eps v0) (cs @ [Pick u draw]))" "p \<in> set ps" by blast
  let ?scored = "api_scored_candidates metrics weights (segment_src seg)
                   (generate gen (segment_src seg) k p temperature)"
  have "sort_reverse R ?scored \<noteq> []"
    using assms(2) [OF p(2)] by (rule api_ranked_nonempty)
  then obtain bc rest where s: "sort_reverse R ?scored = bc # rest"
    by (cases "sort_reverse R ?scored") auto
  note u = update_after_calls [OF p(2), of eps v0 "cs @ [Pick u draw]" "R bc"]
  have r: "ranked_by_R ?scored (bc # rest)" using ranked_sort_reverse [of ?scored] s by simp
  have ne: "str ''rlvr'' \<noteq> str ''showcase''" by (simp add: str_def)
  show ?thesis
    using p s u r ne by (simp add: translate_segment_def Let_def)
qed

lemma translate_segment_standard:
  assumes "request_mode \<noteq> str ''showcase''" "request_mode \<noteq> str ''rlvr''"
    and "prompt_template \<in> set ps"
  shows "\<exists>res b'. translate_segment (after_calls (init ps eps v0) cs) gen metrics weights k
              temperature prompt_template request_mode seg u draw = (Inr res, b') \<and>
           translation_prompt res = prompt_template \<and>
           ranked_by_R (api_scored_candidates metrics weights (segment_src seg)
                          [translate gen (segment_src seg) prompt_template])
                       (translation_candidates res) \<and>
           translation_candidates res \<noteq> [] \<and>
           best_tgt res = cand_text (translation_candidates res ! 0)"
proof -
  let ?scored = "api_scored_candidates metrics weights (segment_src seg)
                   [translate gen (segment_src seg) prompt_template]"
  have "sort_reverse R ?scored \<noteq> []"
    by (rule api_ranked_nonempty) simp
  then obtain bc rest where s: "sort_reverse R ?scored = bc # rest"
    by (cases "sort_reverse R ?scored") auto
  note u = update_after_calls [OF assms(3), of eps v0 cs "R bc"]
  have r: "ranked_by_R ?scored (bc # rest)" using ranked_sort_reverse [of ?scored] s by simp
  show ?thesis
    using assms(1,2) s u r by (simp add: translate_segment_def Let_def)
qed

text \<open>
  C3. Whenever the generator hands back a non-empty candidate list, a segment is
  processed to a result (by the gym runner, and by the API in its showcase, rlvr and
  standard modes, on a bandit that was constructed and then only picked from and
  updated); the result's candidate list is a permutation of the scored candidates,
  sorted by \<^verbatim>\<open>R\<close> descending with ties in generation order, and the best candidate
  is its first element.
\<close>

theorem pipeline_ranking:
  "(ps \<noteq> [] \<and> (\<forall>p\<in>set ps. generate gen (example_src ex) k p temperature \<noteq> []) \<longrightarrow>
      (\<exists>res b' p.
         process_example (after_calls (init ps eps v0) cs) gen metrics weights k
           temperature ex u draw = (Inr res, b') \<and>
         p \<in> set ps \<and> result_prompt res = p \<and>
         ranked_by_R (gym_scored_candidates metrics weights (example_src ex)
                        (generate gen (example_src ex) k p temperature)) (candidates res) \<and>
         candidates res \<noteq> [] \<and> best res = candidates res ! 0 \<and>
         R (best res) = R (candidates res ! 0))) \<and>
   (showcase_generate gen (segment_src seg) k \<noteq> [] \<longrightarrow>
      (\<exists>res.
         translate_segment b gen metrics weights k temperature prompt_template
           (str ''showcase'') seg u draw = (Inr res, b) \<and>
         ranked_by_R (api_scored_candidates metrics weights (segment_src seg)
                        (showcase_generate gen (segment_src seg) k))
                     (translation_candidates res) \<and>
         translation_candidates res \<noteq> [] \<and>
         best_tgt res = cand_text (translation_candidates res ! 0))) \<and>
   (ps \<noteq> [] \<and> (\<forall>p\<in>set ps. generate gen (segment_src seg) k p temperature \<noteq> []) \<longrightarrow>
      (\<exists>res b' p.
         translate_segment (after_calls (init ps eps v0) cs) gen metrics weights k
           temperature prompt_template (str ''rlvr'') seg u draw = (Inr res, b') \<and>
         p \<in> set ps \<and> translation_prompt res = p \<and>
         ranked_by_R (api_scored_candidates metrics weights (segment_src seg)
                        (generate gen (segment_src seg) k p temperature))
                     (translation_candidates res) \<and>
         translation_candidates res \<noteq> [] \<and>
         best_tgt res = cand_text (translation_candidates res ! 0))) \<and>
   (request_mode \<noteq> str ''showcase'' \<and> request_mode \<noteq> str ''rlvr'' \<and>
    prompt_template \<in> set ps \<longrightarrow>
      (\<exists>res b'.
         translate_segment (after_calls (init ps eps v0) cs) gen metrics weights k
           temperature prompt_template request_mode seg u draw = (Inr res, b') \<and>
         translation_prompt res = prompt_template \<and>
         ranked_by_R (api_scored_candidates metrics weights (segment_src seg)
                        [translate gen (segment_src seg) prompt_template])
                     (translation_candidates res) \<and>
         translation_candidates res \<noteq> [] \<and>
         best_tgt res = cand_text (translation_candidates res ! 0)))"
proof (intro conjI impI)
  assume "ps \<noteq> [] \<and> (\<forall>p\<in>set ps. generate gen (example_src ex) k p temperature \<noteq> [])"
  then show "\<exists>res b' p.
         process_example (after_calls (init ps eps v0) cs) gen metrics weights k
           temperature ex u draw = (Inr res, b') \<and>
         p \<in> set ps \<and> result_prompt res = p \<and>
         ranked_by_R (gym_scored_candidates metrics weights (example_src ex)
                        (generate gen (example_src ex) k p temperature)) (candidates res) \<and>
         candidates res \<noteq> [] \<and> best res = candidates res ! 0 \<and>
         R (best res) = R (candidates res ! 0)"
    using process_example_ranked [of ps gen ex k temperature eps v0 cs metrics weights u draw]
    by blast
next
  assume "showcase_generate gen (segment_src seg) k \<noteq> []"
  then show "\<exists>res.
         translate_segment b gen metrics weights k temperature prompt_template
           (str ''showcase'') seg u draw = (Inr res, b) \<and>
         ranked_by_R (api_scored_candidates metrics weights (segment_src seg)
                        (showcase_generate gen (segment_src seg) k))
                     (translation_candidates res) \<and>
         translation_candidates res \<noteq> [] \<and>
         best_tgt res = cand_text (translation_candidates res ! 0)"
    by (rule translate_segment_showcase)
next
  assume "ps \<noteq> [] \<and> (\<forall>p\<in>set ps. generate gen (segment_src seg) k p temperature \<noteq> [])"
  then show "\<exists>res b' p.
         translate_segment (after_calls (init ps eps v0) cs) gen metrics weights k
           temperature prompt_template (str ''rlvr'') seg u draw = (Inr res, b') \<and>
         p \<in> set ps \<and> translation_prompt res = p \<and>
         ranked_by_R (api_scored_candidates metrics weights (segment_src seg)
                        (generate gen (segment_src seg) k p temperature))
                     (translation_candidates res) \<and>
         translation_candidates res \<noteq> [] \<and>
         best_tgt res = cand_text (translation_candidates res ! 0)"
    using translate_segment_rlvr [of ps gen seg k temperature eps v0 cs metrics weights
        prompt_template u draw]
    by blast
next
  assume "request_mode \<noteq> str ''showcase'' \<and> request_mode \<noteq> str ''rlvr'' \<and>
    prompt_template \<in> set ps"
  then show "\<exists>res b'.
         translate_segment (after_calls (init ps eps v0) cs) gen metrics weights k
           temperature prompt_template request_mode seg u draw = (Inr res, b') \<and>
         translation_prompt res = prompt_template \<and>
         ranked_by_R (api_scored_candidates metrics weights (segment_src seg)
                        [translate gen (segment_src seg) prompt_template])
                     (translation_candidates res) \<and>
         translation_candidates res \<noteq> [] \<and>
         best_tgt res = cand_text (translation_candidates res ! 0)"
    using translate_segment_standard by blast
qed

theorem pipeline_ranking_witness:
  "([str ''P'', str ''Q''] \<noteq> [] \<and> generate example_generator (example_src example_go) 2 (str ''P'') 1 \<noteq> [] \<and>
    generate example_generator (example_src example_go) 2 (str ''Q'') 1 \<noteq> [] \<and>
      (\<exists>res b' p.
         process_example (after_calls (init [str ''P'', str ''Q''] 0 (1 / 2)) []) example_generator [] [] 2
           1 example_go (1 / 2) 0 = (Inr res, b') \<and>
         p \<in> set [str ''P'', str ''Q''] \<and> result_prompt res = p \<and>
         ranked_by_R (gym_scored_candidates [] [] (example_src example_go)
                        (generate example_generator (example_src example_go) 2 p 1)) (candidates res) \<and>
         candidates res \<noteq> [] \<and> best res = candidates res ! 0 \<and>
         R (best res) = R (candidates res ! 0))) \<and>
   (showcase_generate example_generator (segment_src segment_go) 2 \<noteq> [] \<and>
      (\<exists>res.
         translate_segment (init [str ''P'', str ''Q''] 0 (1 / 2)) example_generator [] [] 2 1 (str ''P'')
           (str ''showcase'') segment_go (1 / 2) 0 = (Inr res, (init [str ''P'', str ''Q''] 0 (1 / 2))) \<and>
         ranked_by_R (api_scored_candidates [] [] (segment_src segment_go)
                        (showcase_generate example_generator (segment_src segment_go) 2))
                     (translation_candidates res) \<and>
         translation_candidates res \<noteq> [] \<and>
         best_tgt res = cand_text (translation_candidates res ! 0))) \<and>
   ([str ''P'', str ''Q''] \<noteq> [] \<and> generate example_generator (segment_src segment_go) 2 (str ''P'') 1 \<noteq> [] \<and>
    generate example_generator (segment_src segment_go) 2 (str ''Q'') 1 \<noteq> [] \<and>
      (\<exists>res b' p.
         translate_segment (after_calls (init [str ''P'', str ''Q''] 0 (1 / 2)) []) example_generator [] [] 2
           1 (str ''P'') (str ''rlvr'') segment_go (1 / 2) 0 = (Inr res, b') \<and>
         p \<in> set [str ''P'', str ''Q''] \<and> translation_prompt res = p \<and>
         ranked_by_R (api_scored_candidates [] [] (segment_src segment_go)
                        (generate example_generator (segment_src segment_go) 2 p 1))
                     (translation_candidates res) \<and>
         translation_candidates res \<noteq> [] \<and>
         best_tgt res = cand_text (translation_candidates res ! 0))) \<and>
   ((str ''standard'') \<noteq> str ''showcase'' \<and> (str ''standard'') \<noteq> str ''rlvr'' \<and>
    (str ''P'') \<in> set [str ''P'', str ''Q''] \<and>
      (\<exists>res b'.
         translate_segment (after_calls (init [str ''P'', str ''Q''] 0 (1 / 2)) []) example_generator [] [] 2
           1 (str ''P'') (str ''standard'') segment_go (1 / 2) 0 = (Inr res, b') \<and>
         translation_prompt res = (str ''P'') \<and>
         ranked_by_R (api_scored_candidates [] [] (segment_src segment_go)
                        [translate example_generator (segment_src segment_go) (str ''P'')])
                     (translation_candidates res) \<and>
         translation_candidates res \<noteq> [] \<and>
         best_tgt res = cand_text (translation_candidates res ! 0)))"
proof -
  have h1: "[str ''P'', str ''Q''] \<noteq> [] \<and>
      (\<forall>p\<in>set [str ''P'', str ''Q'']. generate example_generator (example_src example_go) 2 p 1 \<noteq> [])"
    by (simp add: example_generator_def)
  have h2: "showcase_generate example_generator (segment_src segment_go) 2 \<noteq> []"
    by (simp add: example_generator_def)
  have h3: "[str ''P'', str ''Q''] \<noteq> [] \<and>
      (\<forall>p\<in>set [str ''P'', str ''Q'']. generate example_generator (segment_src segment_go) 2 p 1 \<noteq> [])"
    by (simp add: example_generator_def)
  have h4: "str ''standard'' \<noteq> str ''showcase'' \<and> str ''standard'' \<noteq> str ''rlvr'' \<and>
      str ''P'' \<in> set [str ''P'', str ''Q'']"
    by (simp add: str_def)
  note inst = pipeline_ranking [of "[str ''P'', str ''Q'']" example_generator example_go 2 1 0
      "1 / 2" "[]" "[]" "[]" "1 / 2" 0 segment_go "init [str ''P'', str ''Q''] 0 (1 / 2)"
      "str ''P''" "str ''standard''"]
  have g1: "generate example_generator (example_src example_go) 2 (str ''P'') 1 \<noteq> [] \<and>
      generate example_generator (example_src example_go) 2 (str ''Q'') 1 \<noteq> []"
    by (simp add: example_generator_def)
  have g3: "generate example_generator (segment_src segment_go) 2 (str ''P'') 1 \<noteq> [] \<and>
      generate example_generator (segment_src segment_go) 2 (str ''Q'') 1 \<noteq> []"
    by (simp add: example_generator_def)
  show ?thesis using h1 h2 h3 h4 g1 g3 inst by blast
qed

section \<open>Properties of the Hawaiian metrics\<close>

lemma matching_templates_nonempty:
  "matching_templates search self text ts \<noteq> [] \<longleftrightarrow>
     (\<exists>t\<in>set ts. search (replace t (str ''VERB'') (verb_pattern self)) text)"
  by (auto simp: matching_templates_def filter_empty_conv)

lemma json_get_has_negative:
  "json_get (neg_check_json (Negative vps ips)) (str ''has_negative'') = Inr (JBool True)"
  by (simp add: str_def)

lemma json_get_invalid_patterns:
  "json_get (neg_check_json (Negative vps ips)) (str ''invalid_patterns'') =
     Inr (JArray (map JString ips))"
  by (simp add: str_def)

text \<open>
  C4. For a text in which the negation marker is found, the TAM metric scores 1.0
  exactly when some valid pattern of the table matches and no invalid one does, 0.0
  whenever some invalid pattern matches (whatever the valid ones do), with
  \<^verbatim>\<open>has_negative\<close> true and a non-empty \<^verbatim>\<open>invalid_patterns\<close> list in the details, and
  0.5 when neither a valid nor an invalid pattern matches. The rule table and the
  regular expression engine are arguments; the hard-fail text of the scenario is the
  instance \<open>aole_ua\<close> of the witness.
\<close>

theorem tam_negative_score:
  assumes "search (neg_marker (patterns self)) text"
  shows
    "(score (TAMParticles_score search self text src) = 1 \<longleftrightarrow>
        (\<exists>t\<in>set (neg_valid (patterns self)).
            search (replace t (str ''VERB'') (verb_pattern self)) text) \<and>
        \<not> (\<exists>t\<in>set (case neg_invalid (patterns self) of None \<Rightarrow> [] | Some ps \<Rightarrow> ps).
              search (replace t (str ''VERB'') (verb_pattern self)) text)) \<and>
     ((\<exists>t\<in>set (case neg_invalid (patterns self) of None \<Rightarrow> [] | Some ps \<Rightarrow> ps).
          search (replace t (str ''VERB'') (verb_pattern self)) text) \<longrightarrow>
        score (TAMParticles_score search self text src) = 0 \<and>
        json_get (details (TAMParticles_score search self text src)) (str ''has_negative'')
          = Inr (JBool True) \<and>
        (\<exists>ips. ips \<noteq> [] \<and>
           json_get (details (TAMParticles_score search self text src)) (str ''invalid_patterns'')
             = Inr (JArray (map JString ips)))) \<and>
     (\<not> (\<exists>t\<in>set (neg_valid (patterns self)).
            search (replace t (str ''VERB'') (verb_pattern self)) text) \<and>
      \<not> (\<exists>t\<in>set (case neg_invalid (patterns self) of None \<Rightarrow> [] | Some ps \<Rightarrow> ps).
            search (replace t (str ''VERB'') (verb_pattern self)) text) \<longrightarrow>
        score (TAMParticles_score search self text src) = 1 / 2)"
proof -
  let ?V = "matching_templates search self text (neg_valid (patterns self))"
  let ?I = "matching_templates search self text
              (case neg_invalid (patterns self) of None \<Rightarrow> [] | Some ps \<Rightarrow> ps)"
  have neg: "check_negative_context search self text = Negative ?V ?I"
    using assms by (simp add: check_negative_context_def)
  have r: "TAMParticles_score search self text src =
      \<lparr> name = str ''tam_particles'', version = str ''1.0'',
        score = (if ?V \<noteq> [] \<and> ?I = [] then 1 else if ?I \<noteq> [] then 0 else 1 / 2),
        details = neg_check_json (Negative ?V ?I) \<rparr>"
    by (simp add: TAMParticles_score_def neg)
  have v: "?V \<noteq> [] \<longleftrightarrow> (\<exists>t\<in>set (neg_valid (patterns self)).
            search (replace t (str ''VERB'') (verb_pattern self)) text)"
    by (rule matching_templates_nonempty)
  have i: "?I \<noteq> [] \<longleftrightarrow>
      (\<exists>t\<in>set (case neg_invalid (patterns self) of None \<Rightarrow> [] | Some ps \<Rightarrow> ps).
            search (replace t (str ''VERB'') (verb_pattern self)) text)"
    by (rule matching_templates_nonempty)
  have s: "score (TAMParticles_score search self text src) =
      (if ?V \<noteq> [] \<and> ?I = [] then 1 else if ?I \<noteq> [] then 0 else 1 / 2)"
    by (simp add: r)
  have d: "details (TAMParticles_score search self text src) = neg_check_json (Negative ?V ?I)"
    by (simp add: r)
  have one: "score (TAMParticles_score search self text src) = 1 \<longleftrightarrow> ?V \<noteq> [] \<and> ?I = []"
    unfolding s by simp
  have zero: "?I \<noteq> [] \<Longrightarrow> score (TAMParticles_score search self text src) = 0"
    unfolding s by simp
  have half: "?V = [] \<Longrightarrow> ?I = [] \<Longrightarrow> score (TAMParticles_score search self text src) = 1 / 2"
    unfolding s by simp
  have hn: "json_get (details (TAMParticles_score search self text src)) (str ''has_negative'')
          = Inr (JBool True)"
    unfolding d by (rule json_get_has_negative)
  have ip: "json_get (details (TAMParticles_score search self text src)) (str ''invalid_patterns'')
             = Inr (JArray (map JString ?I))"
    unfolding d by (rule json_get_invalid_patterns)
  show ?thesis
    using one zero half hn ip v i by blast
qed

lemmas tam_eval = TAMParticles_score_def check_negative_context_def matching_templates_def
  literal_search_def example_tam_def TAMParticles_init_def aole_def aole_ua_def aole_hele_def
  aole_e_hele_def ua_hele_def nani_def
  str_def okina_def lower_char_def startswith_def replace_def default_verb_pattern_def
  check_affirmative_context_def

theorem tam_negative_score_witness:
  "literal_search (neg_marker (patterns example_tam)) aole_ua \<and>
   score (TAMParticles_score literal_search example_tam aole_ua None) = 0 \<and>
   json_get (details (TAMParticles_score literal_search example_tam aole_ua None))
     (str ''has_negative'') = Inr (JBool True) \<and>
   json_get (details (TAMParticles_score literal_search example_tam aole_ua None))
     (str ''invalid_patterns'') = Inr (JArray [JString (aole @ str '' ua'')]) \<and>
   literal_search (neg_marker (patterns example_tam)) aole_hele \<and>
   score (TAMParticles_score literal_search example_tam aole_hele None) = 1 / 2 \<and>
   literal_search (neg_marker (patterns example_tam)) aole_e_hele \<and>
   score (TAMParticles_score literal_search example_tam aole_e_hele None) = 1"
proof -
  have m1: "literal_search (neg_marker (patterns example_tam)) aole_ua"
    by (simp add: tam_eval)
  have m2: "literal_search (neg_marker (patterns example_tam)) aole_hele"
    by (simp add: tam_eval)
  have m3: "literal_search (neg_marker (patterns example_tam)) aole_e_hele"
    by (simp add: tam_eval)
  have i1: "\<exists>t\<in>set (case neg_invalid (patterns example_tam) of None \<Rightarrow> [] | Some ps \<Rightarrow> ps).
      literal_search (replace t (str ''VERB'') (verb_pattern example_tam)) aole_ua"
    by (simp add: tam_eval)
  have v2: "\<not> (\<exists>t\<in>set (neg_valid (patterns example_tam)).
      literal_search (replace t (str ''VERB'') (verb_pattern example_tam)) aole_hele)"
    by (simp add: tam_eval)
  have i2: "\<not> (\<exists>t\<in>set (case neg_invalid (patterns example_tam) of None \<Rightarrow> [] | Some ps \<Rightarrow> ps).
      literal_search (replace t (str ''VERB'') (verb_pattern example_tam)) aole_hele)"
    by (simp add: tam_eval)
  have v3: "\<exists>t\<in>set (neg_valid (patterns example_tam)).
      literal_search (replace t (str ''VERB'') (verb_pattern example_tam)) aole_e_hele"
    by (simp add: tam_eval)
  have i3: "\<not> (\<exists>t\<in>set (case neg_invalid (patterns example_tam) of None \<Rightarrow> [] | Some ps \<Rightarrow> ps).
      literal_search (replace t (str ''VERB'') (verb_pattern example_tam)) aole_e_hele)"
    by (simp add: tam_eval)
  have s1: "score (TAMParticles_score literal_search example_tam aole_ua None) = 0"
    and h1: "json_get (details (TAMParticles_score literal_search example_tam aole_ua None))
      (str ''has_negative'') = Inr (JBool True)"
    using tam_negative_score [of literal_search example_tam aole_ua None] m1 i1 by blast+
  have s2: "score (TAMParticles_score literal_search example_tam aole_hele None) = 1 / 2"
    using tam_negative_score [of literal_search example_tam aole_hele None] m2 v2 i2 by blast
  have s3: "score (TAMParticles_score literal_search example_tam aole_e_hele None) = 1"
    using tam_negative_score [of literal_search example_tam aole_e_hele None] m3 v3 i3 by blast
  have p1: "json_get (details (TAMParticles_score literal_search example_tam aole_ua None))
     (str ''invalid_patterns'') = Inr (JArray [JString (aole @ str '' ua'')])"
    by (simp add: tam_eval)
  show ?thesis using m1 m2 m3 s1 s2 s3 h1 p1 by blast
qed

text \<open>
  C10. For every rule table and every text in which the negation marker is not found,
  the TAM metric scores exactly 1.0, whether or not an affirmative pattern matches.
\<close>

theorem tam_no_negation_score:
  assumes "\<not> search (neg_marker (patterns self)) text"
  shows "score (TAMParticles_score search self text src) = 1"
  using assms
  by (simp add: TAMParticles_score_def check_negative_context_def check_affirmative_context_def)

theorem tam_no_negation_score_witness:
  "\<not> literal_search (neg_marker (patterns example_tam)) ua_hele \<and>
   matching_templates literal_search example_tam ua_hele (aff_valid (patterns example_tam))
     = [str ''ua ''] \<and>
   score (TAMParticles_score literal_search example_tam ua_hele None) = 1 \<and>
   \<not> literal_search (neg_marker (patterns example_tam)) nani \<and>
   matching_templates literal_search example_tam nani (aff_valid (patterns example_tam)) = [] \<and>
   score (TAMParticles_score literal_search example_tam nani None) = 1"
proof -
  have m1: "\<not> literal_search (neg_marker (patterns example_tam)) ua_hele"
    by (simp add: tam_eval)
  have m2: "\<not> literal_search (neg_marker (patterns example_tam)) nani"
    by (simp add: tam_eval)
  have a1: "matching_templates literal_search example_tam ua_hele (aff_valid (patterns example_tam))
     = [str ''ua '']"
    by (simp add: tam_eval)
  have a2: "matching_templates literal_search example_tam nani (aff_valid (patterns example_tam)) = []"
    by (simp add: tam_eval)
  show ?thesis
    using m1 m2 a1 a2 tam_no_negation_score [of literal_search example_tam ua_hele None]
      tam_no_negation_score [of literal_search example_tam nani None]
    by blast
qed

lemma fold_count_step:
  "fold (count_step U self) pairs n = n + length (filter (is_correct U self) pairs)"
  by (induction pairs arbitrary: n) (simp_all add: count_step_def)

lemma ex_nat_split: "(\<exists>j. P j) \<longleftrightarrow> P 0 \<or> (\<exists>j. P (Suc j))" for P :: "nat \<Rightarrow> bool"
  by (metis not0_implies_Suc)

lemma pairs_from_iff:
  "(idx, a, nw) \<in> set (find_article_pairs_from U i ws) \<longleftrightarrow>
     (\<exists>j. idx = i + j \<and> j + 1 < length ws \<and> a = ws ! j \<and> nw = ws ! (j + 1) \<and>
          lower U a \<in> set [str ''ke'', str ''ka''])"
proof (induction U i ws rule: find_article_pairs_from.induct)
  case (1 U i w next_word ws)
  let ?K = "set [str ''ke'', str ''ka'']"
  let ?Q = "\<lambda>j. idx = i + j \<and> j + 1 < length (w # next_word # ws) \<and> a = (w # next_word # ws) ! j \<and>
             nw = (w # next_word # ws) ! (j + 1) \<and> lower U a \<in> ?K"
  have IH: "(idx, a, nw) \<in> set (find_article_pairs_from U (i + 1) (next_word # ws)) \<longleftrightarrow>
     (\<exists>j. idx = i + 1 + j \<and> j + 1 < length (next_word # ws) \<and> a = (next_word # ws) ! j \<and>
          nw = (next_word # ws) ! (j + 1) \<and> lower U a \<in> ?K)"
    using 1 by (cases "lower U w \<in> ?K") blast+
  have suc: "(\<exists>j. ?Q (Suc j)) \<longleftrightarrow> (idx, a, nw) \<in> set (find_article_pairs_from U (i + 1) (next_word # ws))"
    unfolding IH by simp
  have zero: "?Q 0 \<longleftrightarrow> idx = i \<and> a = w \<and> nw = next_word \<and> lower U w \<in> ?K"
    by auto
  have "(\<exists>j. ?Q j) \<longleftrightarrow> ?Q 0 \<or> (\<exists>j. ?Q (Suc j))"
    by (rule ex_nat_split)
  then have "(\<exists>j. ?Q j) \<longleftrightarrow> (idx = i \<and> a = w \<and> nw = next_word \<and> lower U w \<in> ?K) \<or>
      (idx, a, nw) \<in> set (find_article_pairs_from U (i + 1) (next_word # ws))"
    unfolding suc zero .
  moreover have "(idx, a, nw) \<in> set (find_article_pairs_from U i (w # next_word # ws)) \<longleftrightarrow>
      (idx = i \<and> a = w \<and> nw = next_word \<and> lower U w \<in> ?K) \<or>
      (idx, a, nw) \<in> set (find_article_pairs_from U (i + 1) (next_word # ws))"
    by (cases "lower U w \<in> ?K") auto
  ultimately show ?case by blast
qed simp_all

lemma is_correct_iff:
  assumes "lower U article = str ''ke'' \<or> lower U article = str ''ka''"
  shows "is_correct U self (idx, article, next_word) \<longleftrightarrow>
           (if requires_ke U self next_word then lower U article = str ''ke''
            else lower U article = str ''ka'')"
proof -
  have d: "str ''ke'' \<noteq> str ''ka''" by (simp add: str_def)
  have r: "should_use_ke U self next_word = requires_ke U self next_word"
    by (auto simp: should_use_ke_def requires_ke_def Let_def split: list.splits)
  show ?thesis using assms d by (auto simp: is_correct_def r)
qed

lemma ArticlesKeKa_score_eq:
  "score (ArticlesKeKa_score U self text src) =
     (if find_article_pairs U (py_split text) = [] then 1
      else real (length (filter (is_correct U self) (find_article_pairs U (py_split text)))) /
           real (length (find_article_pairs U (py_split text))))"
  by (simp add: ArticlesKeKa_score_def Let_def fold_count_step)

text \<open>
  C5, as the code has it. The pairs the metric checks are exactly the adjacent words
  whose first is \<^verbatim>\<open>ke\<close> or \<^verbatim>\<open>ka\<close> in lower case. A pair counts as correct iff the
  article is \<^verbatim>\<open>ke\<close> when the next word, normalised, is in the exception list or begins
  with one of k, e, a, o and the okina, and \<^verbatim>\<open>ka\<close> in every other case. The score is
  the number of correct pairs divided by the number of pairs, and 1.0 without pairs.
\<close>

theorem articles_ke_ka_rule:
  "(\<forall>pair\<in>set (find_article_pairs U (py_split text)).
      case pair of (idx, article, next_word) \<Rightarrow>
        idx + 1 < length (py_split text) \<and> article = py_split text ! idx \<and>
        next_word = py_split text ! (idx + 1) \<and>
        (lower U article = str ''ke'' \<or> lower U article = str ''ka'') \<and>
        (is_correct U self pair \<longleftrightarrow>
           (if requires_ke U self next_word then lower U article = str ''ke''
            else lower U article = str ''ka''))) \<and>
   (\<forall>idx. idx + 1 < length (py_split text) \<and>
          lower U (py_split text ! idx) \<in> set [str ''ke'', str ''ka''] \<longrightarrow>
          (idx, py_split text ! idx, py_split text ! (idx + 1))
            \<in> set (find_article_pairs U (py_split text))) \<and>
   score (ArticlesKeKa_score U self text src) =
     (if find_article_pairs U (py_split text) = [] then 1
      else real (length (filter (is_correct U self) (find_article_pairs U (py_split text)))) /
           real (length (find_article_pairs U (py_split text))))"
proof (intro conjI ballI allI impI)
  fix pair assume m: "pair \<in> set (find_article_pairs U (py_split text))"
  obtain idx article next_word where p: "pair = (idx, article, next_word)" by (cases pair)
  from m have i: "idx + 1 < length (py_split text)" "article = py_split text ! idx"
    "next_word = py_split text ! (idx + 1)"
    "lower U article \<in> set [str ''ke'', str ''ka'']"
    unfolding p find_article_pairs_def pairs_from_iff by auto
  then have k: "lower U article = str ''ke'' \<or> lower U article = str ''ka''" by simp
  show "case pair of (idx, article, next_word) \<Rightarrow>
        idx + 1 < length (py_split text) \<and> article = py_split text ! idx \<and>
        next_word = py_split text ! (idx + 1) \<and>
        (lower U article = str ''ke'' \<or> lower U article = str ''ka'') \<and>
        (is_correct U self pair \<longleftrightarrow>
           (if requires_ke U self next_word then lower U article = str ''ke''
            else lower U article = str ''ka''))"
    unfolding p using i(1,2,3) k is_correct_iff [OF k, of self idx next_word] by simp
next
  fix idx
  assume "idx + 1 < length (py_split text) \<and>
          lower U (py_split text ! idx) \<in> set [str ''ke'', str ''ka'']"
  then show "(idx, py_split text ! idx, py_split text ! (idx + 1))
            \<in> set (find_article_pairs U (py_split text))"
    unfolding find_article_pairs_def pairs_from_iff by auto
next
  show "score (ArticlesKeKa_score U self text src) =
     (if find_article_pairs U (py_split text) = [] then 1
      else real (length (filter (is_correct U self) (find_article_pairs U (py_split text)))) /
           real (length (find_article_pairs U (py_split text))))"
    by (rule ArticlesKeKa_score_eq)
qed

lemmas ke_eval = ArticlesKeKa_score_def count_step_def is_correct_def should_use_ke_def
  requires_ke_def requires_ke_spec_def normalize_word_def py_strip_def find_article_pairs_def
  py_split_def example_methods_def str_def okina_def isspace_def lower_char_def ke_aina_def
  aina_def

theorem articles_ke_ka_rule_witness:
  "find_article_pairs example_methods (py_split ke_aina) = [(0, str ''ke'', aina)] \<and>
   py_split ke_aina = [str ''ke'', aina] \<and>
   lower example_methods (str ''ke'') = str ''ke'' \<and>
   requires_ke example_methods \<lparr>ke_exceptions = []\<rparr> aina \<and>
   is_correct example_methods \<lparr>ke_exceptions = []\<rparr> (0, str ''ke'', aina) \<and>
   score (ArticlesKeKa_score example_methods \<lparr>ke_exceptions = []\<rparr> ke_aina None) = 1"
proof -
  let ?self = "\<lparr>ke_exceptions = []\<rparr>"
  note rule = articles_ke_ka_rule [of example_methods ke_aina ?self None]
  have w: "py_split ke_aina = [str ''ke'', aina]" by (simp add: ke_eval)
  have p: "find_article_pairs example_methods (py_split ke_aina) = [(0, str ''ke'', aina)]"
    by (simp add: ke_eval)
  have l: "lower example_methods (str ''ke'') = str ''ke''" by (simp add: ke_eval)
  have r: "requires_ke example_methods ?self aina" by (simp add: ke_eval)
  note ball = conjunct1 [OF rule, unfolded p]
  have "(0, str ''ke'', aina) \<in> set [(0::nat, str ''ke'', aina)]" by simp
  from bspec [OF ball this]
  have "is_correct example_methods ?self (0, str ''ke'', aina) \<longleftrightarrow>
          (if requires_ke example_methods ?self aina
           then lower example_methods (str ''ke'') = str ''ke''
           else lower example_methods (str ''ke'') = str ''ka'')"
    unfolding prod.case by blast
  then have c: "is_correct example_methods ?self (0, str ''ke'', aina)"
    using r l by simp
  note sc = conjunct2 [OF conjunct2 [OF rule], unfolded p]
  have "score (ArticlesKeKa_score example_methods ?self ke_aina None) = 1"
    unfolding sc using c by simp
  then show ?thesis using w p l r c by simp
qed

text \<open>
  C5 as stated fails: a word that begins with the okina and is in no exception list
  does not require \<^verbatim>\<open>ke\<close> by the rule of the specification, yet the metric counts
  \<^verbatim>\<open>ke\<close> before it as correct and scores the text 1.0.
\<close>

theorem articles_ke_okina_counterexample:
  "find_article_pairs example_methods (py_split ke_aina) = [(0, str ''ke'', aina)] \<and>
   \<not> requires_ke_spec example_methods \<lparr>ke_exceptions = []\<rparr> aina \<and>
   is_correct example_methods \<lparr>ke_exceptions = []\<rparr> (0, str ''ke'', aina) \<and>
   score (ArticlesKeKa_score example_methods \<lparr>ke_exceptions = []\<rparr> ke_aina None) = 1"
  by (simp add: ke_eval)

section \<open>The range of the metric scores\<close>

lemma clamped_score_bounds:
  "0 \<le> max 0 (1 - real e / real (max c 1)) \<and> max 0 (1 - real e / real (max c 1)) \<le> (1::real)"
proof -
  have "0 \<le> real e / real (max c 1)" by simp
  then show ?thesis by simp
qed

lemma ratio_bounds:
  assumes "k \<le> n" "0 < n"
  shows "0 \<le> real k / real n \<and> real k / real n \<le> 1"
  using assms by simp

lemma diacritics_fold_invariant:
  "fold (diacritics_step U self) ws (wtc, k) = (wtc', k') \<Longrightarrow> k \<le> length wtc \<Longrightarrow>
     k' \<le> length wtc'"
proof (induction ws arbitrary: wtc k)
  case Nil
  then show ?case by simp
next
  case (Cons w ws)
  obtain wtc1 k1 where s: "diacritics_step U self w (wtc, k) = (wtc1, k1)"
    by (cases "diacritics_step U self w (wtc, k)")
  then have "k1 \<le> length wtc1"
    using Cons.prems(2) by (auto simp: diacritics_step_def split: option.splits if_splits)
  moreover have "fold (diacritics_step U self) ws (wtc1, k1) = (wtc', k')"
    using Cons.prems(1) s by simp
  ultimately show ?case by (rule Cons.IH [rotated])
qed

lemma Diacritics_score_bounds:
  "0 \<le> score (Diacritics_score U self text src) \<and> score (Diacritics_score U self text src) \<le> 1"
proof -
  obtain wtc k where f: "fold (diacritics_step U self) (py_split text) ([], 0) = (wtc, k)"
    by (cases "fold (diacritics_step U self) (py_split text) ([], 0)")
  from diacritics_fold_invariant [OF f] have le: "k \<le> length wtc" by simp
  show ?thesis
  proof (cases "wtc = []")
    case True
    then show ?thesis by (simp add: Diacritics_score_def f)
  next
    case False
    then have "0 < length wtc" by simp
    from ratio_bounds [OF le this] show ?thesis using False by (simp add: Diacritics_score_def f)
  qed
qed

lemma TAMParticles_score_bounds:
  "0 \<le> score (TAMParticles_score search self text src) \<and>
   score (TAMParticles_score search self text src) \<le> 1"
  by (simp add: TAMParticles_score_def Let_def check_affirmative_context_def
      split: neg_check.splits)

lemma ArticlesKeKa_score_bounds:
  "0 \<le> score (ArticlesKeKa_score U self text src) \<and>
   score (ArticlesKeKa_score U self text src) \<le> 1"
proof (cases "find_article_pairs U (py_split text) = []")
  case True
  then show ?thesis by (simp add: ArticlesKeKa_score_def)
next
  case False
  let ?ps = "find_article_pairs U (py_split text)"
  have "length (filter (is_correct U self) ?ps) \<le> length ?ps" by simp
  moreover have "0 < length ?ps" using False by simp
  ultimately have "0 \<le> real (length (filter (is_correct U self) ?ps)) / real (length ?ps) \<and>
      real (length (filter (is_correct U self) ?ps)) / real (length ?ps) \<le> 1"
    by (rule ratio_bounds)
  then show ?thesis using False by (simp add: ArticlesKeKa_score_def Let_def fold_count_step)
qed

lemma ArticlesAAn_score_bounds:
  "0 \<le> score (ArticlesAAn_score U re self text src) \<and>
   score (ArticlesAAn_score U re self text src) \<le> 1"
proof -
  obtain errors checks where
    f: "fold (aan_step U re self) (finditer_a_an re text) ([], []) = (errors, checks)"
    by (cases "fold (aan_step U re self) (finditer_a_an re text) ([], [])")
  have "score (ArticlesAAn_score U re self text src) =
      max 0 (1 - real (length errors) / real (max (length checks) 1))"
    by (simp add: ArticlesAAn_score_def f Let_def)
  then show ?thesis using clamped_score_bounds [of "length errors" "length checks"] by simp
qed

lemma SpellingChecker_score_bounds:
  "0 \<le> score (SpellingChecker_score U re self text src) \<and>
   score (SpellingChecker_score U re self text src) \<le> 1"
proof -
  obtain errors n where
    f: "fold (spelling_step U self text) (findall_words re text) ([], 0) = (errors, n)"
    by (cases "fold (spelling_step U self text) (findall_words re text) ([], 0)")
  have "score (SpellingChecker_score U re self text src) =
      max 0 (1 - real (length errors) / real (max n 1))"
    by (simp add: SpellingChecker_score_def f Let_def)
  then show ?thesis using clamped_score_bounds [of "length errors" n] by simp
qed

lemma SubjectVerbAgreement_score_bounds:
  "0 \<le> score (SubjectVerbAgreement_score U re text src) \<and>
   score (SubjectVerbAgreement_score U re text src) \<le> 1"
proof -
  obtain errors checks where
    f: "fold (sentence_step U re) (split_sentences re (py_strip text)) ([], []) = (errors, checks)"
    by (cases "fold (sentence_step U re) (split_sentences re (py_strip text)) ([], [])")
  have "score (SubjectVerbAgreement_score U re text src) =
      max 0 (1 - real (length errors) / real (max (length checks) 1))"
    by (simp add: SubjectVerbAgreement_score_def f Let_def)
  then show ?thesis using clamped_score_bounds [of "length errors" "length checks"] by simp
qed

lemma split_from_nonempty: "cur \<noteq> [] \<Longrightarrow> split_from cur cs \<noteq> []"
  by (induction cs arbitrary: cur) auto

lemma py_split_nonempty:
  assumes "s \<noteq> []" "\<not> isspace (hd s)"
  shows "py_split s \<noteq> []"
proof -
  from assms obtain c cs where s: "s = c # cs" "\<not> isspace c" by (cases s) auto
  have "split_from [c] cs \<noteq> []" by (rule split_from_nonempty) simp
  then show ?thesis using s by (simp add: py_split_def)
qed

lemma hd_py_strip:
  assumes "py_strip s \<noteq> []"
  shows "\<not> isspace (hd (py_strip s))"
proof -
  let ?t = "dropWhile isspace s"
  have "rev (takeWhile isspace (rev ?t) @ dropWhile isspace (rev ?t)) = rev (rev ?t)"
    by (simp only: takeWhile_dropWhile_id)
  then have t: "?t = py_strip s @ rev (takeWhile isspace (rev ?t))"
    by (simp only: rev_append rev_rev_ident py_strip_def)
  have ne: "?t \<noteq> []"
  proof
    assume "?t = []"
    then have "py_strip s = []" by (simp only: py_strip_def rev.simps dropWhile.simps)
    with assms show False by simp
  qed
  then have "\<not> isspace (hd ?t)" by (rule hd_dropWhile)
  moreover have "hd ?t = hd (py_strip s)"
    using assms by (subst t) simp
  ultimately show ?thesis by simp
qed

lemma last_word_returns: "\<exists>w. last_word U (py_strip p) = Inr w"
proof (cases "py_strip p = []")
  case True
  then show ?thesis by (simp add: last_word_def)
next
  case False
  from py_split_nonempty [OF False hd_py_strip [OF False]]
  obtain w ws where "py_split (py_strip p) = w # ws" by (cases "py_split (py_strip p)") auto
  with False show ?thesis by (simp add: last_word_def)
qed

lemma capital_loop_returns: "\<exists>es. capital_loop U prev position sents = Inr es"
proof (induction sents arbitrary: prev position)
  case Nil
  then show ?case by simp
next
  case (Cons sent rest)
  from Cons.IH [of "Some sent" "position + length sent + 1"] obtain es' where
    r: "capital_loop U (Some sent) (position + length sent + 1) rest = Inr es'" by blast
  show ?case
  proof (cases prev)
    case None
    then show ?thesis using r by simp
  next
    case (Some p)
    from last_word_returns [of U p] obtain lw where "last_word U (py_strip p) = Inr lw" by blast
    then show ?thesis using r Some by (simp add: Let_def split: list.splits)
  qed
qed

lemma PunctuationChecker_score_bounds:
  "\<exists>r. PunctuationChecker_score U re text src = Inr r \<and> 0 \<le> score r \<and> score r \<le> 1"
proof -
  from capital_loop_returns [of U None 0 "split_after_end re text"] obtain e2 where
    "capital_loop U None 0 (split_after_end re text) = Inr e2" by blast
  then obtain ce where c: "check_capitalization U re text = Inr ce"
    by (simp add: check_capitalization_def Let_def)
  let ?all = "check_sentence_punctuation re text @ ce @ check_comma_usage U re text"
  let ?total = "length (split_sentence_ends re (py_strip text)) * 2 + count_list text 44 + 1"
  obtain r where r: "PunctuationChecker_score U re text src = Inr r"
    "score r = max 0 (1 - real (length ?all) / real (max ?total 1))"
    by (simp add: PunctuationChecker_score_def c Let_def)
  show ?thesis using r clamped_score_bounds [of "length ?all" ?total] by auto
qed

text \<open>
  C6. For every implemented metric (diacritics, TAM particles, ke/ka articles, a/an
  articles, subject-verb agreement, spelling, punctuation), every text and optional
  source, every resource table and whatever the regular expression engine finds, the
  returned score lies between 0 and 1; the punctuation metric, the only one with an
  indexing that could raise, always returns.
\<close>

theorem metric_scores_in_unit_interval:
  "(0 \<le> score (Diacritics_score U dia text src) \<and>
    score (Diacritics_score U dia text src) \<le> 1) \<and>
   (0 \<le> score (TAMParticles_score search tam text src) \<and>
    score (TAMParticles_score search tam text src) \<le> 1) \<and>
   (0 \<le> score (ArticlesKeKa_score U keka text src) \<and>
    score (ArticlesKeKa_score U keka text src) \<le> 1) \<and>
   (0 \<le> score (ArticlesAAn_score U are aan text src) \<and>
    score (ArticlesAAn_score U are aan text src) \<le> 1) \<and>
   (0 \<le> score (SubjectVerbAgreement_score U svre text src) \<and>
    score (SubjectVerbAgreement_score U svre text src) \<le> 1) \<and>
   (0 \<le> score (SpellingChecker_score U spre spell text src) \<and>
    score (SpellingChecker_score U spre spell text src) \<le> 1) \<and>
   (\<exists>r. PunctuationChecker_score U pure text src = Inr r \<and> 0 \<le> score r \<and> score r \<le> 1)"
  using Diacritics_score_bounds [of U dia "text" src]
    TAMParticles_score_bounds [of search tam "text" src]
    ArticlesKeKa_score_bounds [of U keka "text" src]
    ArticlesAAn_score_bounds [of U are aan "text" src]
    SubjectVerbAgreement_score_bounds [of U svre "text" src]
    SpellingChecker_score_bounds [of U spre spell "text" src]
    PunctuationChecker_score_bounds [of U pure "text" src]
  by blast

lemmas diacritics_eval = Let_def Diacritics_score_def diacritics_step_def check_word_def
  normalize_word_def py_strip_def strip_diacritics_def plain_vowel_def py_split_def
  example_methods_def str_def okina_def isspace_def lower_char_def hoike_def
  ua_pau_ka_hoike_def ua_pau_ka_hoike_plain_def

theorem metric_scores_in_unit_interval_witness:
  "(0 \<le> score (Diacritics_score example_methods \<lparr>required_forms = [hoike]\<rparr> ua_pau_ka_hoike_plain None) \<and>
    score (Diacritics_score example_methods \<lparr>required_forms = [hoike]\<rparr> ua_pau_ka_hoike_plain None) \<le> 1) \<and>
   (0 \<le> score (TAMParticles_score literal_search example_tam ua_pau_ka_hoike_plain None) \<and>
    score (TAMParticles_score literal_search example_tam ua_pau_ka_hoike_plain None) \<le> 1) \<and>
   (0 \<le> score (ArticlesKeKa_score example_methods \<lparr>ke_exceptions = []\<rparr> ua_pau_ka_hoike_plain None) \<and>
    score (ArticlesKeKa_score example_methods \<lparr>ke_exceptions = []\<rparr> ua_pau_ka_hoike_plain None) \<le> 1) \<and>
   (0 \<le> score (ArticlesAAn_score example_methods no_aan \<lparr>exceptions_use_a = [], exceptions_use_an = []\<rparr> ua_pau_ka_hoike_plain None) \<and>
    score (ArticlesAAn_score example_methods no_aan \<lparr>exceptions_use_a = [], exceptions_use_an = []\<rparr> ua_pau_ka_hoike_plain None) \<le> 1) \<and>
   (0 \<le> score (SubjectVerbAgreement_score example_methods no_subject_verb ua_pau_ka_hoike_plain None) \<and>
    score (SubjectVerbAgreement_score example_methods no_subject_verb ua_pau_ka_hoike_plain None) \<le> 1) \<and>
   (0 \<le> score (SpellingChecker_score example_methods no_spelling \<lparr>error_to_correct = []\<rparr> ua_pau_ka_hoike_plain None) \<and>
    score (SpellingChecker_score example_methods no_spelling \<lparr>error_to_correct = []\<rparr> ua_pau_ka_hoike_plain None) \<le> 1) \<and>
   (\<exists>r. PunctuationChecker_score example_methods no_punctuation ua_pau_ka_hoike_plain None = Inr r \<and> 0 \<le> score r \<and> score r \<le> 1) \<and>
   score (Diacritics_score example_methods \<lparr>required_forms = [hoike]\<rparr> ua_pau_ka_hoike None) = 1 \<and>
   score (Diacritics_score example_methods \<lparr>required_forms = [hoike]\<rparr> ua_pau_ka_hoike_plain None) = 0"
proof -
  have d1: "score (Diacritics_score example_methods \<lparr>required_forms = [hoike]\<rparr>
      ua_pau_ka_hoike None) = 1"
    by (simp add: diacritics_eval)
  have d2: "score (Diacritics_score example_methods \<lparr>required_forms = [hoike]\<rparr>
      ua_pau_ka_hoike_plain None) = 0"
    by (simp add: diacritics_eval)
  note inst = metric_scores_in_unit_interval
    [of example_methods "\<lparr>required_forms = [hoike]\<rparr>" ua_pau_ka_hoike_plain None
      literal_search example_tam "\<lparr>ke_exceptions = []\<rparr>" no_aan
      "\<lparr>exceptions_use_a = [], exceptions_use_an = []\<rparr>" no_subject_verb no_spelling
      "\<lparr>error_to_correct = []\<rparr>" no_punctuation]
  show ?thesis using inst d1 d2 by blast
qed

end
